theory Spec2Isabelle
  imports Complex_Main
begin

section \<open>Python library functions used by the transfer agent\<close>

text \<open>
  The agent (\<^verbatim>\<open>pghoard/object_storage/__init__.py\<close>) builds object keys with
  \<^verbatim>\<open>os.path.basename\<close>, \<^verbatim>\<open>os.path.dirname\<close>, \<^verbatim>\<open>os.path.splitext\<close>,
  \<^verbatim>\<open>str.join\<close> and \<^verbatim>\<open>str.lower\<close>. They are modelled after the POSIX versions
  of the standard library (\<^verbatim>\<open>posixpath.py\<close>, \<^verbatim>\<open>genericpath.py\<close>), statement by
  statement. Strings are \<^typ>\<open>string\<close>.
\<close>

text \<open>\<^verbatim>\<open>p.rfind(c)\<close>: the index of the last occurrence of \<open>c\<close>, or \<open>-1\<close>.\<close>

definition rfind :: "string \<Rightarrow> char \<Rightarrow> int" where
  "rfind p c =
     (if c \<in> set p
      then int (length p) - 1 - int (length (takeWhile (\<lambda>x. x \<noteq> c) (rev p)))
      else - 1)"

text \<open>\<^verbatim>\<open>p.rstrip(c)\<close> for a single character \<open>c\<close>.\<close>

definition rstrip :: "string \<Rightarrow> char \<Rightarrow> string" where
  "rstrip p c = rev (dropWhile (\<lambda>x. x = c) (rev p))"

text \<open>
  \<^verbatim>\<open>
  def basename(p):
      i = p.rfind('/') + 1
      return p[i:]
  \<close>
\<close>

definition basename :: "string \<Rightarrow> string" where
  "basename p = (let i = nat (rfind p CHR ''/'' + 1) in drop i p)"

text \<open>
  \<^verbatim>\<open>
  def dirname(p):
      i = p.rfind('/') + 1
      head = p[:i]
      if head and head != '/' * len(head):
          head = head.rstrip('/')
      return head
  \<close>
\<close>

definition dirname :: "string \<Rightarrow> string" where
  "dirname p =
     (let i = nat (rfind p CHR ''/'' + 1);
          head = take i p
      in if head \<noteq> [] \<and> head \<noteq> replicate (length head) CHR ''/''
         then rstrip head CHR ''/''
         else head)"

text \<open>
  \<^verbatim>\<open>
  def _splitext(p, sep, altsep, extsep):
      sepIndex = p.rfind(sep)
      dotIndex = p.rfind(extsep)
      if dotIndex > sepIndex:
          # skip all leading dots
          filenameIndex = sepIndex + 1
          while filenameIndex < dotIndex:
              if p[filenameIndex:filenameIndex+1] != extsep:
                  return p[:dotIndex], p[dotIndex:]
              filenameIndex += 1
      return p, p[:0]
  \<close>
  The \<^verbatim>\<open>while\<close> loop is \<open>splitext_loop\<close>.
\<close>

function splitext_loop :: "string \<Rightarrow> nat \<Rightarrow> nat \<Rightarrow> string \<times> string" where
  "splitext_loop p filenameIndex dotIndex =
     (if filenameIndex < dotIndex
      then (if take 1 (drop filenameIndex p) \<noteq> ''.''
            then (take dotIndex p, drop dotIndex p)
            else splitext_loop p (filenameIndex + 1) dotIndex)
      else (p, []))"
  by pat_completeness auto
termination
  by (relation "measure (\<lambda>(p, filenameIndex, dotIndex). dotIndex - filenameIndex)") auto

declare splitext_loop.simps [simp del]

definition splitext :: "string \<Rightarrow> string \<times> string" where
  "splitext p =
     (let sepIndex = rfind p CHR ''/'';
          dotIndex = rfind p CHR ''.''
      in if dotIndex > sepIndex
         then splitext_loop p (nat (sepIndex + 1)) (nat dotIndex)
         else (p, []))"

text \<open>\<^verbatim>\<open>sep.join(xs)\<close>.\<close>

fun join :: "string \<Rightarrow> string list \<Rightarrow> string" where
  "join sep [] = []"
| "join sep [x] = x"
| "join sep (x # y # ys) = x @ sep @ join sep (y # ys)"

text \<open>
  \<^verbatim>\<open>s.lower()\<close> on the ASCII letters. (No character outside ASCII lowers to a letter
  of \<^verbatim>\<open>upload\<close> or \<^verbatim>\<open>download\<close>, so the dispatch of \<open>run\<close> is decided by this
  part of the function.)
\<close>

definition lower_char :: "char \<Rightarrow> char" where
  "lower_char c =
     (if 65 \<le> (of_char c :: nat) \<and> (of_char c :: nat) \<le> 90
      then char_of ((of_char c :: nat) + 32)
      else c)"

definition lower :: "string \<Rightarrow> string" where
  "lower s = map lower_char s"

section \<open>Data model\<close>

text \<open>
  Exceptions are values. Only subclasses of \<^verbatim>\<open>Exception\<close> occur; the argument of
  \<open>KeyError\<close> is the missing key.
\<close>

datatype exn =
    KeyError string
  | AttributeError string
  | InvalidConfigurationError string
  | FileNotFoundFromStorageError
  | StorageError string
  | OSError string

type_synonym bytes = string
type_synonym metadata_map = "(string \<times> string) list"

text \<open>
  A transfer request is a Python dict used as a struct: every field may be missing, and
  a field that is present holds a value of its type (strings for \<^verbatim>\<open>type\<close>,
  \<^verbatim>\<open>site\<close>, \<^verbatim>\<open>filetype\<close> and the paths, an integer for
  \<^verbatim>\<open>file_size\<close>, a queue for \<^verbatim>\<open>callback_queue\<close>). A queue object is
  referred to by its address, a natural number. The field \<^verbatim>\<open>type\<close> is
  \<open>rtype\<close> here.
\<close>

record request =
  rtype :: "string option"
  site :: "string option"
  filetype :: "string option"
  local_path :: "string option"
  target_path :: "string option"
  blob :: "bytes option"
  metadata :: "metadata_map option"
  file_size :: "int option"
  callback_queue :: "nat option"

section \<open>Key path\<close>

text \<open>
  \<^verbatim>\<open>
  def form_key_path(self, file_to_transfer):
      if file_to_transfer["filetype"] == "basebackup":
          name = os.path.basename(os.path.dirname(file_to_transfer["local_path"]))
      else:
          name = os.path.splitext(os.path.basename(file_to_transfer["local_path"]))[0]
      key = "/".join([file_to_transfer["site"], file_to_transfer["filetype"], name])
      return key
  \<close>
  A subscript of a missing field raises \<open>KeyError\<close>, in the order of evaluation.
\<close>

definition form_key_path :: "request \<Rightarrow> exn + string" where
  "form_key_path file_to_transfer =
     (case filetype file_to_transfer of
        None \<Rightarrow> Inl (KeyError ''filetype'')
      | Some ft \<Rightarrow>
          (case local_path file_to_transfer of
             None \<Rightarrow> Inl (KeyError ''local_path'')
           | Some p \<Rightarrow>
               (let name = (if ft = ''basebackup''
                            then basename (dirname p)
                            else fst (splitext (basename p)))
                in case site file_to_transfer of
                     None \<Rightarrow> Inl (KeyError ''site'')
                   | Some s \<Rightarrow> Inr (join ''/'' [s, ft, name]))))"

section \<open>Storage backends and their configuration\<close>

text \<open>
  A provider's configuration is a dict from option names to values; a site's
  \<^verbatim>\<open>object_storage\<close> entry is a dict from provider names to such configurations,
  kept as a list of its items in iteration order, since \<open>get_object_storage\<close>
  iterates over it. \<open>config self\<close> is \<^verbatim>\<open>self.config["backup_sites"]\<close>: a site maps
  to \<open>None\<close> when its dict has no \<^verbatim>\<open>object_storage\<close> key.
\<close>

datatype pyval = PStr string | PInt int | PBool bool | PNone

type_synonym provider_config = "string \<rightharpoonup> pyval"
type_synonym site_config = "(string \<times> provider_config) list option"

text \<open>
  The transfer classes live in \<^verbatim>\<open>azure.py\<close>, \<^verbatim>\<open>google.py\<close> and \<^verbatim>\<open>s3.py\<close>; a
  storage object is identified by its class and constructor arguments, in the order
  the call site passes them.
\<close>

datatype storage =
    AzureTransfer pyval pyval pyval
  | GoogleTransfer pyval pyval pyval
  | S3Transfer pyval pyval pyval pyval pyval pyval pyval

text \<open>
  Calls that leave the agent: backends, file system, clock. The agent records them in
  order (\<open>calls\<close>); what the \<open>n\<close>-th call returns or raises is given by the
  \<open>world\<close>, so that a backend may answer differently each time.
\<close>

datatype call =
    Construct storage
  | GetContentsToString storage string
  | StoreFileFromMemory storage string bytes metadata_map
  | StoreFileFromDisk storage string string metadata_map
  | Rmtree string
  | Unlink string
  | PathExists string
  | Sleep real
  | Time

record world =
  construct :: "nat \<Rightarrow> storage \<Rightarrow> exn option"
  get_contents_to_string :: "nat \<Rightarrow> storage \<Rightarrow> string \<Rightarrow> exn + bytes \<times> metadata_map"
  store_file_from_memory :: "nat \<Rightarrow> storage \<Rightarrow> string \<Rightarrow> bytes \<Rightarrow> metadata_map \<Rightarrow> exn option"
  store_file_from_disk :: "nat \<Rightarrow> storage \<Rightarrow> string \<Rightarrow> string \<Rightarrow> metadata_map \<Rightarrow> exn option"
  unlink :: "nat \<Rightarrow> string \<Rightarrow> exn option"
  path_exists :: "nat \<Rightarrow> string \<Rightarrow> bool"
  time_time :: "nat \<Rightarrow> real"

text \<open>\<^verbatim>\<open>d.get(k, default)\<close>.\<close>

definition dict_get :: "('k \<rightharpoonup> 'v) \<Rightarrow> 'k \<Rightarrow> 'v \<Rightarrow> 'v" where
  "dict_get d k dflt = (case d k of None \<Rightarrow> dflt | Some v \<Rightarrow> v)"

text \<open>Calling a transfer class: its \<^verbatim>\<open>__init__\<close> may raise.\<close>

definition new_storage :: "world \<Rightarrow> call list \<Rightarrow> storage \<Rightarrow> (exn + storage) \<times> call list" where
  "new_storage w cs st =
     (case construct w (length cs) st of
        Some e \<Rightarrow> (Inl e, cs @ [Construct st])
      | None \<Rightarrow> (Inr st, cs @ [Construct st]))"

text \<open>
  \<^verbatim>\<open>
  def get_object_storage_transfer(key, value):
      if key == "azure":
          storage = AzureTransfer(value["account_name"], value["account_key"],
                                  value.get("container_name", "pghoard"))
      elif key == "google":
          storage = GoogleTransfer(project_id=value["project_id"],
                                   bucket_name=value.get("bucket_name", "pghoard"),
                                   credential_file=value.get("credential_file"))
      elif key == "s3":
          storage = S3Transfer(value["aws_access_key_id"], value["aws_secret_access_key"],
                               value.get("region", ""), value['bucket_name'],
                               host=value.get("host"), port=value.get("port"),
                               is_secure=value.get("is_secure", False))
      else:
          raise InvalidConfigurationError("unknown storage type {0!r}".format(key))
      return storage
  \<close>
  \<open>InvalidConfigurationError key\<close> stands for the exception with that message.
\<close>

definition get_object_storage_transfer ::
    "world \<Rightarrow> call list \<Rightarrow> string \<Rightarrow> provider_config \<Rightarrow> (exn + storage) \<times> call list" where
  "get_object_storage_transfer w cs key val =
     (if key = ''azure'' then
        (case val ''account_name'' of
           None \<Rightarrow> (Inl (KeyError ''account_name''), cs)
         | Some account_name \<Rightarrow>
        (case val ''account_key'' of
           None \<Rightarrow> (Inl (KeyError ''account_key''), cs)
         | Some account_key \<Rightarrow>
             new_storage w cs
               (AzureTransfer account_name account_key
                  (dict_get val ''container_name'' (PStr ''pghoard'')))))
      else if key = ''google'' then
        (case val ''project_id'' of
           None \<Rightarrow> (Inl (KeyError ''project_id''), cs)
         | Some project_id \<Rightarrow>
             new_storage w cs
               (GoogleTransfer project_id
                  (dict_get val ''bucket_name'' (PStr ''pghoard''))
                  (dict_get val ''credential_file'' PNone)))
      else if key = ''s3'' then
        (case val ''aws_access_key_id'' of
           None \<Rightarrow> (Inl (KeyError ''aws_access_key_id''), cs)
         | Some aws_access_key_id \<Rightarrow>
        (case val ''aws_secret_access_key'' of
           None \<Rightarrow> (Inl (KeyError ''aws_secret_access_key''), cs)
         | Some aws_secret_access_key \<Rightarrow>
        (case val ''bucket_name'' of
           None \<Rightarrow> (Inl (KeyError ''bucket_name''), cs)
         | Some bucket_name \<Rightarrow>
             new_storage w cs
               (S3Transfer aws_access_key_id aws_secret_access_key
                  (dict_get val ''region'' (PStr [])) bucket_name
                  (dict_get val ''host'' PNone) (dict_get val ''port'' PNone)
                  (dict_get val ''is_secure'' (PBool False))))))
      else (Inl (InvalidConfigurationError key), cs))"

section \<open>The transfer agent\<close>

record result =
  success :: bool
  call_callback :: "bool option"

text \<open>The dict put on the compression queue by \<open>handle_download\<close>.\<close>

record message =
  msg_blob :: bytes
  msg_callback_queue :: nat
  msg_local_path :: string
  msg_metadata :: metadata_map
  msg_site :: string
  msg_type :: string

text \<open>
  A leaf of \<^verbatim>\<open>self.state[site][oper][filetype]\<close>. \<^verbatim>\<open>data\<close> is an integer, since
  the \<^verbatim>\<open>file_size\<close> of a request is added to it as it comes; \<^verbatim>\<open>time_taken\<close>, a
  float in the source, is a real number.
\<close>

record leaf =
  data :: int
  count :: nat
  time_taken :: real
  failures :: nat

text \<open>
  The agent's attributes. \<open>callback_queues\<close> is the heap of the queue objects that
  requests refer to by address, with what has been put on each.
\<close>

record agent =
  config :: "string \<rightharpoonup> site_config"
  compression_queue :: "message list"
  transfer_queue :: "request list"
  running :: bool
  state :: "string \<rightharpoonup> string \<rightharpoonup> string \<rightharpoonup> leaf"
  site_transfers :: "string \<rightharpoonup> storage"
  callback_queues :: "nat \<Rightarrow> result list"
  calls :: "call list"

text \<open>\<^verbatim>\<open>TransferAgent.__init__(config, compression_queue, transfer_queue)\<close>.\<close>

definition init :: "(string \<rightharpoonup> site_config) \<Rightarrow> message list \<Rightarrow> request list \<Rightarrow> agent" where
  "init cfg cq tq =
     \<lparr>config = cfg, compression_queue = cq, transfer_queue = tq, running = True,
      state = Map.empty, site_transfers = Map.empty,
      callback_queues = (\<lambda>q. []), calls = []\<rparr>"

text \<open>
  \<^verbatim>\<open>
  def set_state_defaults_for_site(self, site):
      if site not in self.state:
          EMPTY = {"data": 0, "count": 0, "time_taken": 0.0, "failures": 0}
          self.state[site] = {
              "upload": {"basebackup": EMPTY.copy(), "xlog": EMPTY.copy(), "timeline": EMPTY.copy()},
              "download": {"basebackup": EMPTY.copy(), "xlog": EMPTY.copy(), "timeline": EMPTY.copy()},
          }
  \<close>
\<close>

definition EMPTY :: leaf where
  "EMPTY = \<lparr>data = 0, count = 0, time_taken = 0, failures = 0\<rparr>"

definition set_state_defaults_for_site :: "agent \<Rightarrow> string \<Rightarrow> agent" where
  "set_state_defaults_for_site self s =
     (if state self s = None
      then self\<lparr>state := (state self)(s \<mapsto>
             [''upload'' \<mapsto> [''basebackup'' \<mapsto> EMPTY, ''xlog'' \<mapsto> EMPTY, ''timeline'' \<mapsto> EMPTY],
              ''download'' \<mapsto> [''basebackup'' \<mapsto> EMPTY, ''xlog'' \<mapsto> EMPTY, ''timeline'' \<mapsto> EMPTY]])\<rparr>
      else self)"

text \<open>
  \<^verbatim>\<open>
  def get_object_storage(self, site_name):
      storage = self.site_transfers.get(site_name)
      if not storage:
          cfg = self.config["backup_sites"][site_name].get("object_storage", {})
          for key, value in cfg.items():
              storage = get_object_storage_transfer(key, value)
              self.site_transfers[site_name] = storage
      return storage
  \<close>
  The \<^verbatim>\<open>for\<close> loop is \<open>get_object_storage_loop\<close>, with the current value of
  \<^verbatim>\<open>storage\<close> as an argument. The agent is returned also when an exception is
  raised, since the handlers catch it and go on.
\<close>

fun get_object_storage_loop ::
    "world \<Rightarrow> agent \<Rightarrow> string \<Rightarrow> storage option \<Rightarrow> (string \<times> provider_config) list
      \<Rightarrow> (exn + storage option) \<times> agent" where
  "get_object_storage_loop w self site_name storage [] = (Inr storage, self)"
| "get_object_storage_loop w self site_name storage ((key, val) # cfg) =
     (case get_object_storage_transfer w (calls self) key val of
        (Inl e, cs) \<Rightarrow> (Inl e, self\<lparr>calls := cs\<rparr>)
      | (Inr st, cs) \<Rightarrow>
          get_object_storage_loop w
            (self\<lparr>calls := cs, site_transfers := (site_transfers self)(site_name \<mapsto> st)\<rparr>)
            site_name (Some st) cfg)"

definition get_object_storage :: "world \<Rightarrow> agent \<Rightarrow> string \<Rightarrow> (exn + storage option) \<times> agent" where
  "get_object_storage w self site_name =
     (case site_transfers self site_name of
        Some storage \<Rightarrow> (Inr (Some storage), self)
      | None \<Rightarrow>
          (case config self site_name of
             None \<Rightarrow> (Inl (KeyError site_name), self)
           | Some site_cfg \<Rightarrow>
               get_object_storage_loop w self site_name None
                 (case site_cfg of None \<Rightarrow> [] | Some cfg \<Rightarrow> cfg)))"

subsection \<open>Download\<close>

text \<open>
  \<^verbatim>\<open>
  def handle_download(self, site, key, file_to_transfer):
      try:
          storage = self.get_object_storage(site)

          content, metadata = storage.get_contents_to_string(key)
          file_to_transfer["file_size"] = len(content)
          # Note that here we flip the local_path to mean the target_path
          self.compression_queue.put({
              "blob": content,
              "callback_queue": file_to_transfer["callback_queue"],
              "local_path": file_to_transfer["target_path"],
              "metadata": metadata,
              "site": site,
              "type": "DECOMPRESSION",
          })
          return {"success": True, "call_callback": False}
      except Exception as ex:  # pylint: disable=broad-except
          if isinstance(ex, FileNotFoundFromStorageError):
              self.log.warning("%r not found from storage", key)
          else:
              self.log.exception("Problem happened when downloading: %r, %r", key, file_to_transfer)
          return {"success": False}
  \<close>
  \<open>handle_download_try\<close> is the body of the \<^verbatim>\<open>try\<close>; the request dict is mutated
  in place, so it is returned with the agent. A method called on \<^verbatim>\<open>None\<close> raises
  \<open>AttributeError\<close>.
\<close>

definition handle_download_try ::
    "world \<Rightarrow> agent \<Rightarrow> string \<Rightarrow> string \<Rightarrow> request \<Rightarrow> (exn + result) \<times> request \<times> agent" where
  "handle_download_try w self site_name key file_to_transfer =
     (case get_object_storage w self site_name of
        (Inl e, self1) \<Rightarrow> (Inl e, file_to_transfer, self1)
      | (Inr None, self1) \<Rightarrow>
          (Inl (AttributeError ''get_contents_to_string''), file_to_transfer, self1)
      | (Inr (Some storage), self1) \<Rightarrow>
          (let self2 = self1\<lparr>calls := calls self1 @ [GetContentsToString storage key]\<rparr>
           in case get_contents_to_string w (length (calls self1)) storage key of
                Inl e \<Rightarrow> (Inl e, file_to_transfer, self2)
              | Inr (content, md) \<Rightarrow>
                  (let ftt = file_to_transfer\<lparr>file_size := Some (int (length content))\<rparr>
                   in case callback_queue ftt of
                        None \<Rightarrow> (Inl (KeyError ''callback_queue''), ftt, self2)
                      | Some cq \<Rightarrow>
                          (case target_path ftt of
                             None \<Rightarrow> (Inl (KeyError ''target_path''), ftt, self2)
                           | Some tp \<Rightarrow>
                               (Inr \<lparr>success = True, call_callback = Some False\<rparr>, ftt,
                                self2\<lparr>compression_queue := compression_queue self2 @
                                  [\<lparr>msg_blob = content, msg_callback_queue = cq,
                                    msg_local_path = tp, msg_metadata = md,
                                    msg_site = site_name,
                                    msg_type = ''DECOMPRESSION''\<rparr>]\<rparr>)))))"

definition handle_download ::
    "world \<Rightarrow> agent \<Rightarrow> string \<Rightarrow> string \<Rightarrow> request \<Rightarrow> result \<times> request \<times> agent" where
  "handle_download w self site_name key file_to_transfer =
     (case handle_download_try w self site_name key file_to_transfer of
        (Inr res, ftt, self1) \<Rightarrow> (res, ftt, self1)
      | (Inl ex, ftt, self1) \<Rightarrow> (\<lparr>success = False, call_callback = None\<rparr>, ftt, self1))"

subsection \<open>Upload\<close>

text \<open>
  The inner \<^verbatim>\<open>try\<close> of \<open>handle_upload\<close>, whose bare \<^verbatim>\<open>except\<close> swallows every
  exception:
  \<^verbatim>\<open>
  if file_to_transfer["filetype"] == "basebackup":
      shutil.rmtree(os.path.dirname(file_to_transfer["local_path"]))
  else:
      os.unlink(file_to_transfer["local_path"])
      metadata_path = file_to_transfer["local_path"] + ".metadata"
      if os.path.exists(metadata_path):
          os.unlink(metadata_path)
  \<close>
  Whether \<^verbatim>\<open>rmtree\<close> or the second \<^verbatim>\<open>unlink\<close> raises changes nothing.
\<close>

definition delete_uploaded :: "world \<Rightarrow> call list \<Rightarrow> request \<Rightarrow> call list" where
  "delete_uploaded w cs file_to_transfer =
     (case filetype file_to_transfer of
        None \<Rightarrow> cs
      | Some ft \<Rightarrow>
          (case local_path file_to_transfer of
             None \<Rightarrow> cs
           | Some p \<Rightarrow>
               if ft = ''basebackup'' then cs @ [Rmtree (dirname p)]
               else (let cs1 = cs @ [Unlink p]
                     in case unlink w (length cs) p of
                          Some e \<Rightarrow> cs1
                        | None \<Rightarrow>
                            (let metadata_path = p @ ''.metadata'';
                                 cs2 = cs1 @ [PathExists metadata_path]
                             in if path_exists w (length cs1) metadata_path
                                then cs2 @ [Unlink metadata_path]
                                else cs2))))"

text \<open>
  \<^verbatim>\<open>
  def handle_upload(self, site, key, file_to_transfer):
      try:
          storage = self.get_object_storage(site)
          if "blob" in file_to_transfer:
              storage.store_file_from_memory(key, file_to_transfer["blob"],
                                             metadata=file_to_transfer["metadata"])
          else:
              storage.store_file_from_disk(key, file_to_transfer["local_path"],
                                           metadata=file_to_transfer["metadata"])
              try:
                  ...
              except:  # pylint: disable=bare-except
                  self.log.exception("Problem in deleting file: %r", file_to_transfer["local_path"])
          return {"success": True}
      except Exception:  # pylint: disable=broad-except
          self.log.exception("Problem in moving file: %r, need to retry", file_to_transfer["local_path"])
          # TODO come up with something so we don't busy loop
          time.sleep(0.5)
          self.transfer_queue.put(file_to_transfer)
          return {"success": False, "call_callback": False}
  \<close>
  The handler of the outer \<^verbatim>\<open>try\<close> reads \<^verbatim>\<open>file_to_transfer["local_path"]\<close>
  for its log line; when the field is missing, that \<open>KeyError\<close> leaves the method.
\<close>

definition handle_upload_try ::
    "world \<Rightarrow> agent \<Rightarrow> string \<Rightarrow> string \<Rightarrow> request \<Rightarrow> (exn + result) \<times> agent" where
  "handle_upload_try w self site_name key file_to_transfer =
     (case get_object_storage w self site_name of
        (Inl e, self1) \<Rightarrow> (Inl e, self1)
      | (Inr storage, self1) \<Rightarrow>
          (case blob file_to_transfer of
             Some b \<Rightarrow>
               (case storage of
                  None \<Rightarrow> (Inl (AttributeError ''store_file_from_memory''), self1)
                | Some st \<Rightarrow>
                    (case metadata file_to_transfer of
                       None \<Rightarrow> (Inl (KeyError ''metadata''), self1)
                     | Some md \<Rightarrow>
                         (let self2 = self1\<lparr>calls := calls self1 @ [StoreFileFromMemory st key b md]\<rparr>
                          in case store_file_from_memory w (length (calls self1)) st key b md of
                               Some e \<Rightarrow> (Inl e, self2)
                             | None \<Rightarrow> (Inr \<lparr>success = True, call_callback = None\<rparr>, self2))))
           | None \<Rightarrow>
               (case storage of
                  None \<Rightarrow> (Inl (AttributeError ''store_file_from_disk''), self1)
                | Some st \<Rightarrow>
                    (case local_path file_to_transfer of
                       None \<Rightarrow> (Inl (KeyError ''local_path''), self1)
                     | Some p \<Rightarrow>
                         (case metadata file_to_transfer of
                            None \<Rightarrow> (Inl (KeyError ''metadata''), self1)
                          | Some md \<Rightarrow>
                              (let self2 = self1\<lparr>calls := calls self1 @ [StoreFileFromDisk st key p md]\<rparr>
                               in case store_file_from_disk w (length (calls self1)) st key p md of
                                    Some e \<Rightarrow> (Inl e, self2)
                                  | None \<Rightarrow>
                                      (Inr \<lparr>success = True, call_callback = None\<rparr>,
                                       self2\<lparr>calls := delete_uploaded w (calls self2) file_to_transfer\<rparr>)))))))"

definition handle_upload ::
    "world \<Rightarrow> agent \<Rightarrow> string \<Rightarrow> string \<Rightarrow> request \<Rightarrow> exn + result \<times> agent" where
  "handle_upload w self site_name key file_to_transfer =
     (case handle_upload_try w self site_name key file_to_transfer of
        (Inr res, self1) \<Rightarrow> Inr (res, self1)
      | (Inl ex, self1) \<Rightarrow>
          (case local_path file_to_transfer of
             None \<Rightarrow> Inl (KeyError ''local_path'')
           | Some p \<Rightarrow>
               Inr (\<lparr>success = False, call_callback = Some False\<rparr>,
                    self1\<lparr>calls := calls self1 @ [Sleep (1 / 2)],
                          transfer_queue := transfer_queue self1 @ [file_to_transfer]\<rparr>)))"

subsection \<open>The worker loop\<close>

text \<open>
  \<^verbatim>\<open>oper_func = getattr(self, "handle_" + oper, None)\<close>: the class has the two
  methods \<open>handle_download\<close> and \<open>handle_upload\<close> with that prefix. Both are given
  the type of a handler that may raise and that returns the request it was passed.
\<close>

type_synonym handler =
  "world \<Rightarrow> agent \<Rightarrow> string \<Rightarrow> string \<Rightarrow> request \<Rightarrow> exn + result \<times> request \<times> agent"

definition oper_func :: "string \<Rightarrow> handler option" where
  "oper_func oper =
     (if ''handle_'' @ oper = ''handle_download''
      then Some (\<lambda>w self s key ftt. Inr (handle_download w self s key ftt))
      else if ''handle_'' @ oper = ''handle_upload''
      then Some (\<lambda>w self s key ftt.
             case handle_upload w self s key ftt of
               Inl e \<Rightarrow> Inl e
             | Inr (res, self1) \<Rightarrow> Inr (res, ftt, self1))
      else None)"

text \<open>
  One statement \<^verbatim>\<open>self.state[site][oper][filetype][field] += v\<close>: the three
  subscripts raise \<open>KeyError\<close> on a missing key, before anything is written.
\<close>

definition update_leaf ::
    "agent \<Rightarrow> string \<Rightarrow> string \<Rightarrow> string \<Rightarrow> (leaf \<Rightarrow> leaf) \<Rightarrow> exn + agent" where
  "update_leaf self s oper ft f =
     (case state self s of
        None \<Rightarrow> Inl (KeyError s)
      | Some opers \<Rightarrow>
          (case opers oper of
             None \<Rightarrow> Inl (KeyError oper)
           | Some fts \<Rightarrow>
               (case fts ft of
                  None \<Rightarrow> Inl (KeyError ft)
                | Some l \<Rightarrow>
                    Inr (self\<lparr>state := (state self)(s \<mapsto> opers(oper \<mapsto> fts(ft \<mapsto> f l)))\<rparr>))))"

text \<open>
  \<^verbatim>\<open>
  # increment statistics counters
  self.set_state_defaults_for_site(site)
  oper_size = file_to_transfer.get("file_size", 0)
  if result["success"]:
      self.state[site][oper][filetype]["count"] += 1
      self.state[site][oper][filetype]["data"] += oper_size
      self.state[site][oper][filetype]["time_taken"] += time.time() - start_time
  else:
      self.state[site][oper][filetype]["failures"] += 1
  \<close>
\<close>

definition increment_statistics ::
    "world \<Rightarrow> agent \<Rightarrow> string \<Rightarrow> string \<Rightarrow> string \<Rightarrow> request \<Rightarrow> result \<Rightarrow> real
      \<Rightarrow> exn + agent" where
  "increment_statistics w self s oper ft file_to_transfer res start_time =
     (let self1 = set_state_defaults_for_site self s;
          oper_size = (case file_size file_to_transfer of None \<Rightarrow> 0 | Some n \<Rightarrow> n)
      in if success res
         then (case update_leaf self1 s oper ft (\<lambda>l. l\<lparr>count := count l + 1\<rparr>) of
                 Inl e \<Rightarrow> Inl e
               | Inr self2 \<Rightarrow>
           (case update_leaf self2 s oper ft (\<lambda>l. l\<lparr>data := data l + oper_size\<rparr>) of
                 Inl e \<Rightarrow> Inl e
               | Inr self3 \<Rightarrow>
                   (let now = time_time w (length (calls self3));
                        self4 = self3\<lparr>calls := calls self3 @ [Time]\<rparr>
                    in update_leaf self4 s oper ft
                         (\<lambda>l. l\<lparr>time_taken := time_taken l + (now - start_time)\<rparr>))))
         else update_leaf self1 s oper ft (\<lambda>l. l\<lparr>failures := failures l + 1\<rparr>))"

text \<open>
  \<^verbatim>\<open>
  # push result to callback_queue if provided
  if result.get("call_callback", True) and "callback_queue" in file_to_transfer:
      file_to_transfer["callback_queue"].put(result)
  \<close>
\<close>

definition push_result :: "agent \<Rightarrow> request \<Rightarrow> result \<Rightarrow> agent" where
  "push_result self file_to_transfer res =
     (if (case call_callback res of None \<Rightarrow> True | Some b \<Rightarrow> b)
      then (case callback_queue file_to_transfer of
              None \<Rightarrow> self
            | Some q \<Rightarrow>
                self\<lparr>callback_queues := (callback_queues self)(q := callback_queues self q @ [res])\<rparr>)
      else self)"

text \<open>
  The body of the \<^verbatim>\<open>while\<close> loop of \<open>run\<close>, for a request taken from the queue:
  \<^verbatim>\<open>
  if file_to_transfer["type"] == "QUIT":
      break
  self.log.debug("Starting to %r %r, size: %r",
                 file_to_transfer["type"], file_to_transfer["local_path"],
                 file_to_transfer.get("file_size", "unknown"))
  start_time = time.time()
  key = self.form_key_path(file_to_transfer)
  oper = file_to_transfer["type"].lower()
  oper_func = getattr(self, "handle_" + oper, None)
  if oper_func is None:
      self.log.warning("Invalid operation %r", file_to_transfer["type"])
      continue
  site = file_to_transfer["site"]
  filetype = file_to_transfer["filetype"]

  result = oper_func(site, key, file_to_transfer)
  (statistics, callback)
  self.log.info("%r %stransfer of key: %r, size: %r, took %.3fs", ..., time.time() - start_time)
  \<close>
  The result says whether the loop goes on (\<open>Continue\<close>) or is left (\<open>Break\<close>); an
  exception (\<open>Inl\<close>) leaves \<open>run\<close>, as nothing in \<open>run\<close> catches it.
\<close>

datatype flow = Continue | Break

definition run_body :: "world \<Rightarrow> agent \<Rightarrow> request \<Rightarrow> exn + flow \<times> agent" where
  "run_body w self file_to_transfer =
     (case rtype file_to_transfer of
        None \<Rightarrow> Inl (KeyError ''type'')
      | Some t \<Rightarrow>
          if t = ''QUIT'' then Inr (Break, self)
          else
            (case local_path file_to_transfer of
               None \<Rightarrow> Inl (KeyError ''local_path'')
             | Some p \<Rightarrow>
                 (let start_time = time_time w (length (calls self));
                      self0 = self\<lparr>calls := calls self @ [Time]\<rparr>
                  in case form_key_path file_to_transfer of
                       Inl e \<Rightarrow> Inl e
                     | Inr key \<Rightarrow>
                         (let oper = lower t
                          in case oper_func oper of
                               None \<Rightarrow> Inr (Continue, self0)
                             | Some h \<Rightarrow>
                                 (case site file_to_transfer of
                                    None \<Rightarrow> Inl (KeyError ''site'')
                                  | Some s \<Rightarrow>
                                 (case filetype file_to_transfer of
                                    None \<Rightarrow> Inl (KeyError ''filetype'')
                                  | Some ft \<Rightarrow>
                                 (case h w self0 s key file_to_transfer of
                                    Inl e \<Rightarrow> Inl e
                                  | Inr (res, ftt, self1) \<Rightarrow>
                                 (case increment_statistics w self1 s oper ft ftt res start_time of
                                    Inl e \<Rightarrow> Inl e
                                  | Inr self2 \<Rightarrow>
                                      (let self3 = push_result self2 ftt res
                                       in Inr (Continue,
                                               self3\<lparr>calls := calls self3 @ [Time]\<rparr>))))))))))"

text \<open>
  \<^verbatim>\<open>
  def run(self):
      while self.running:
          try:
              file_to_transfer = self.transfer_queue.get(timeout=1.0)
          except Empty:
              continue
          (body)
      self.log.info("Quitting TransferAgent")
  \<close>
  The loop need not end (an empty queue is polled for ever, a failing upload is put back
  for ever), so \<open>run\<close> takes the number of iterations it may make. Only this thread
  is modelled: the queue holds what the producers have put, and \<open>running\<close> is what it
  was set to.
\<close>

datatype outcome = Returned agent | Raised exn | Running agent

fun run :: "nat \<Rightarrow> world \<Rightarrow> agent \<Rightarrow> outcome" where
  "run 0 w self = Running self"
| "run (Suc n) w self =
     (if \<not> running self then Returned self
      else (case transfer_queue self of
              [] \<Rightarrow> run n w self
            | file_to_transfer # rest \<Rightarrow>
                (case run_body w (self\<lparr>transfer_queue := rest\<rparr>) file_to_transfer of
                   Inl e \<Rightarrow> Raised e
                 | Inr (Break, self1) \<Rightarrow> Returned self1
                 | Inr (Continue, self1) \<Rightarrow> run n w self1)))"

section \<open>Notions used in the statements\<close>

text \<open>
  The configuration keys that \<open>get_object_storage_transfer\<close> subscripts (the others
  are read with \<^verbatim>\<open>get\<close> and have defaults), and the entries it can build a storage
  from.
\<close>

definition required_keys :: "string \<Rightarrow> string list" where
  "required_keys key =
     (if key = ''azure'' then [''account_name'', ''account_key'']
      else if key = ''google'' then [''project_id'']
      else if key = ''s3'' then [''aws_access_key_id'', ''aws_secret_access_key'', ''bucket_name'']
      else [])"

definition complete_entry :: "string \<Rightarrow> provider_config \<Rightarrow> bool" where
  "complete_entry key val =
     ((key = ''azure'' \<or> key = ''google'' \<or> key = ''s3'') \<and>
      (\<forall>k \<in> set (required_keys key). val k \<noteq> None))"

text \<open>
  Reading the statistics. \<open>leaf_at\<close> is the subscript chain
  \<^verbatim>\<open>self.state[site][oper][filetype]\<close> (\<open>None\<close> where it raises \<open>KeyError\<close>);
  \<open>counters\<close> reads a leaf that has not been created yet as the zeros it is created
  with. A site is ready when it is absent from \<open>state\<close> or has all the leaves that
  \<open>set_state_defaults_for_site\<close> creates, which is so in every state the agent reaches
  from \<open>init\<close>.
\<close>

definition leaf_at :: "agent \<Rightarrow> string \<Rightarrow> string \<Rightarrow> string \<Rightarrow> leaf option" where
  "leaf_at self s oper ft =
     (case state self s of
        None \<Rightarrow> None
      | Some opers \<Rightarrow> (case opers oper of None \<Rightarrow> None | Some fts \<Rightarrow> fts ft))"

definition counters :: "agent \<Rightarrow> string \<Rightarrow> string \<Rightarrow> string \<Rightarrow> leaf" where
  "counters self s oper ft = (case leaf_at self s oper ft of None \<Rightarrow> EMPTY | Some l \<Rightarrow> l)"

definition site_ready :: "agent \<Rightarrow> string \<Rightarrow> bool" where
  "site_ready self s =
     (state self s = None \<or>
      (\<forall>oper \<in> {''upload'', ''download''}. \<forall>ft \<in> {''basebackup'', ''xlog'', ''timeline''}.
         leaf_at self s oper ft \<noteq> None))"

text \<open>
  The requests that the loop body can process without a subscript failing: the type is
  there and, unless it is \<^verbatim>\<open>QUIT\<close>, so are \<^verbatim>\<open>local_path\<close>, \<^verbatim>\<open>site\<close> and
  \<^verbatim>\<open>filetype\<close>; for an upload or a download the file type is one of the three that
  have a statistics leaf.
\<close>

definition well_formed :: "request \<Rightarrow> bool" where
  "well_formed ftt =
     (case rtype ftt of
        None \<Rightarrow> False
      | Some t \<Rightarrow>
          t = ''QUIT'' \<or>
          (local_path ftt \<noteq> None \<and> site ftt \<noteq> None \<and>
           (case filetype ftt of
              None \<Rightarrow> False
            | Some ft \<Rightarrow>
                (lower t = ''upload'' \<or> lower t = ''download'') \<longrightarrow>
                ft = ''basebackup'' \<or> ft = ''xlog'' \<or> ft = ''timeline'')))"

section \<open>Example inputs\<close>

text \<open>An upload request for a compressed WAL segment, as the compressor submits it.\<close>

definition example_request :: request where
  "example_request =
     \<lparr>rtype = Some ''UPLOAD'', site = Some ''default'', filetype = Some ''xlog'',
      local_path = Some ''/data/xlog/000000010000000000000001.gz'', target_path = None,
      blob = None, metadata = Some [], file_size = Some 16, callback_queue = Some 0\<rparr>"

text \<open>
  A world in which every backend call succeeds and the store holds one WAL segment.
\<close>

definition example_world :: world where
  "example_world =
     \<lparr>construct = (\<lambda>n st. None),
      get_contents_to_string = (\<lambda>n st key.
        if key = ''default/xlog/000000010000000000000001''
        then Inr (''wal'', [(''compression-algorithm'', ''snappy'')])
        else Inl FileNotFoundFromStorageError),
      store_file_from_memory = (\<lambda>n st key b md. None),
      store_file_from_disk = (\<lambda>n st key p md. None),
      unlink = (\<lambda>n p. None),
      path_exists = (\<lambda>n p. False),
      time_time = (\<lambda>n. real n)\<rparr>"

definition s3_config :: provider_config where
  "s3_config = [''aws_access_key_id'' \<mapsto> PStr ''id'', ''aws_secret_access_key'' \<mapsto> PStr ''secret'',
                ''bucket_name'' \<mapsto> PStr ''backups'']"

definition google_config :: provider_config where
  "google_config = [''project_id'' \<mapsto> PStr ''project'']"

definition s3_storage :: storage where
  "s3_storage = S3Transfer (PStr ''id'') (PStr ''secret'') (PStr []) (PStr ''backups'')
                  PNone PNone (PBool False)"

definition google_storage :: storage where
  "google_storage = GoogleTransfer (PStr ''project'') (PStr ''pghoard'') PNone"

definition two_provider_config :: "string \<rightharpoonup> site_config" where
  "two_provider_config = [''default'' \<mapsto> Some [(''s3'', s3_config), (''google'', google_config)]]"

definition no_provider_config :: "string \<rightharpoonup> site_config" where
  "no_provider_config = [''default'' \<mapsto> Some []]"

text \<open>
  The same world with a backend that refuses every store, and with a clock that is set
  back between any two readings; a configuration with one provider, a download request,
  and an agent that has resolved its storage already.
\<close>

definition failing_world :: world where
  "failing_world =
     example_world\<lparr>store_file_from_memory := (\<lambda>n st key b md. Some (StorageError ''unavailable'')),
                   store_file_from_disk := (\<lambda>n st key p md. Some (StorageError ''unavailable''))\<rparr>"

definition backward_world :: world where
  "backward_world = example_world\<lparr>time_time := (\<lambda>n. - real n)\<rparr>"

definition example_config :: "string \<rightharpoonup> site_config" where
  "example_config = [''default'' \<mapsto> Some [(''s3'', s3_config)]]"

definition download_request :: request where
  "download_request =
     \<lparr>rtype = Some ''DOWNLOAD'', site = Some ''default'', filetype = Some ''xlog'',
      local_path = Some ''000000010000000000000001'',
      target_path = Some ''/pg/xlog/000000010000000000000001'',
      blob = None, metadata = None, file_size = None, callback_queue = Some 1\<rparr>"

definition cached_agent :: agent where
  "cached_agent = (init example_config [] [])\<lparr>site_transfers := [''default'' \<mapsto> s3_storage]\<rparr>"

definition quit_request :: request where
  "quit_request =
     \<lparr>rtype = Some ''QUIT'', site = None, filetype = None, local_path = None,
      target_path = None, blob = None, metadata = None, file_size = None,
      callback_queue = None\<rparr>"

section \<open>Properties of the path functions\<close>

lemma rfind_append_last:
  "c \<notin> set f \<Longrightarrow> rfind (a @ c # f) c = int (length a)"
proof -
  assume c: "c \<notin> set f"
  have "takeWhile (\<lambda>x. x \<noteq> c) (rev f @ c # rev a) = rev f"
    using c by (subst takeWhile_append2) auto
  then show ?thesis by (simp add: rfind_def)
qed

lemma rfind_absent: "c \<notin> set p \<Longrightarrow> rfind p c = - 1"
  by (simp add: rfind_def)

lemma basename_append:
  "CHR ''/'' \<notin> set f \<Longrightarrow> basename (a @ CHR ''/'' # f) = f"
  by (simp add: basename_def rfind_append_last nat_add_distrib)

lemma basename_plain: "CHR ''/'' \<notin> set f \<Longrightarrow> basename f = f"
  by (simp add: basename_def rfind_absent)

lemma basename_prefixed:
  assumes f: "CHR ''/'' \<notin> set f" and pre: "pre = [] \<or> last pre = CHR ''/''"
  shows "basename (pre @ f) = f"
proof (cases pre rule: rev_cases)
  case Nil
  with f show ?thesis by (simp add: basename_plain)
next
  case (snoc a c)
  with pre have "pre @ f = a @ CHR ''/'' # f" by simp
  then show ?thesis using basename_append [OF f, of a] by simp
qed

lemma rstrip_replicate: "rstrip (a @ replicate k c) c = rstrip a c"
proof -
  have "dropWhile (\<lambda>x. x = c) (replicate k c @ ys) = dropWhile (\<lambda>x. x = c) ys" for ys
    by (induction k) auto
  then show ?thesis by (simp add: rstrip_def)
qed

lemma rstrip_id: "a = [] \<or> last a \<noteq> c \<Longrightarrow> rstrip a c = a"
  by (cases a rule: rev_cases) (auto simp: rstrip_def)

lemma dirname_parent:
  assumes f: "CHR ''/'' \<notin> set f" and n: "n \<noteq> []" "CHR ''/'' \<notin> set n"
  shows "dirname (pre @ n @ replicate (Suc k) CHR ''/'' @ f) = pre @ n"
proof -
  let ?a = "pre @ n @ replicate k CHR ''/''"
  have p: "pre @ n @ replicate (Suc k) CHR ''/'' @ f = ?a @ CHR ''/'' # f"
    by (simp add: replicate_append_same)
  have i: "nat (rfind (?a @ CHR ''/'' # f) CHR ''/'' + 1) = Suc (length ?a)"
    using rfind_append_last [OF f, of ?a] by simp
  have head: "take (Suc (length ?a)) (?a @ CHR ''/'' # f) = (pre @ n) @ replicate (Suc k) CHR ''/''"
    by (simp add: replicate_append_same)
  have notall: "(pre @ n) @ replicate (Suc k) CHR ''/'' \<noteq> replicate m CHR ''/''" for m
  proof
    assume "(pre @ n) @ replicate (Suc k) CHR ''/'' = replicate m CHR ''/''"
    then have "set n \<subseteq> set (replicate m CHR ''/'')"
      by (metis set_append Un_upper1 Un_upper2 subset_trans)
    with n show False by (cases n) auto
  qed
  have last: "last (pre @ n) \<noteq> CHR ''/''"
    using n by (metis last_append last_in_set)
  show ?thesis
    unfolding p dirname_def Let_def i head
    using notall last by (simp only: rstrip_replicate rstrip_id if_True simp_thms) (simp add: rstrip_replicate rstrip_id)
qed


lemma splitext_loop_char:
  "splitext_loop p i d =
     (if \<exists>j. i \<le> j \<and> j < d \<and> take 1 (drop j p) \<noteq> ''.''
      then (take d p, drop d p) else (p, []))"
proof (induction p i d rule: splitext_loop.induct)
  case (1 p i d)
  show ?case
  proof (cases "i < d")
    case False
    then show ?thesis by (subst splitext_loop.simps) auto
  next
    case True
    show ?thesis
    proof (cases "take 1 (drop i p) \<noteq> ''.''")
      case t: True
      with True show ?thesis by (subst splitext_loop.simps) auto
    next
      case f: False
      have "(\<exists>j. i \<le> j \<and> j < d \<and> take 1 (drop j p) \<noteq> ''.'')
            = (\<exists>j. i + 1 \<le> j \<and> j < d \<and> take 1 (drop j p) \<noteq> ''.'')"
        using f by (metis Suc_eq_plus1 Suc_leI le_neq_implies_less Suc_leD)
      with True f "1.IH" show ?thesis by (subst splitext_loop.simps) simp
    qed
  qed
qed

lemma take1_drop: "j < length xs \<Longrightarrow> take 1 (drop j xs) = [xs ! j]"
  by (simp add: Cons_nth_drop_Suc [symmetric])

lemma splitext_stem:
  assumes stem: "CHR ''/'' \<notin> set stem" "\<exists>c \<in> set stem. c \<noteq> CHR ''.''"
    and ext: "CHR ''/'' \<notin> set ext" "CHR ''.'' \<notin> set ext"
  shows "splitext (stem @ CHR ''.'' # ext) = (stem, CHR ''.'' # ext)"
proof -
  let ?b = "stem @ CHR ''.'' # ext"
  have sep: "rfind ?b CHR ''/'' = - 1"
    using stem ext by (simp add: rfind_absent)
  have dot: "rfind ?b CHR ''.'' = int (length stem)"
    using ext by (simp add: rfind_append_last)
  from stem obtain j where j: "j < length stem" "stem ! j \<noteq> CHR ''.''"
    by (metis in_set_conv_nth)
  then have "take 1 (drop j ?b) = [?b ! j]" and "?b ! j = stem ! j"
    by (simp_all only: take1_drop length_append trans_less_add1 nth_append if_True)
  with j have "\<exists>j. 0 \<le> j \<and> j < length stem \<and> take 1 (drop j ?b) \<noteq> ''.''"
    by auto
  then show ?thesis
    by (simp add: splitext_def sep dot splitext_loop_char)
qed

lemma splitext_no_ext:
  assumes rest: "CHR ''/'' \<notin> set rest" "CHR ''.'' \<notin> set rest"
  shows "splitext (replicate k CHR ''.'' @ rest) = (replicate k CHR ''.'' @ rest, [])"
proof (cases k)
  case 0
  with rest show ?thesis by (simp add: splitext_def rfind_absent)
next
  case (Suc m)
  define b where "b = replicate k CHR ''.'' @ rest"
  have eq: "b = replicate m CHR ''.'' @ CHR ''.'' # rest"
    using Suc by (simp add: b_def replicate_append_same)
  have sep: "rfind b CHR ''/'' = - 1"
    using rest by (simp add: b_def rfind_absent)
  have dot: "rfind b CHR ''.'' = int m"
    unfolding eq using rest by (simp add: rfind_append_last)
  have "take 1 (drop j b) = ''.''" if "j < m" for j
  proof -
    from that have "j < length b" unfolding eq by simp
    then have "take 1 (drop j b) = [b ! j]" by (rule take1_drop)
    also from that have "b ! j = CHR ''.''" unfolding eq by (simp add: nth_append)
    finally show ?thesis .
  qed
  then have "\<not> (\<exists>j. 0 \<le> j \<and> j < m \<and> take 1 (drop j b) \<noteq> ''.'')"
    by blast
  then have "splitext_loop b 0 m = (b, [])"
    by (simp only: splitext_loop_char if_False)
  then have "splitext b = (b, [])"
    by (simp add: splitext_def sep dot)
  then show ?thesis by (simp only: b_def)
qed

section \<open>The key of a request\<close>

text \<open>
  Claim C4. \<open>form_key_path\<close> is a function of the request alone. For the file type
  \<^verbatim>\<open>basebackup\<close> the key is \<^verbatim>\<open>site/basebackup/n\<close>, where \<open>n\<close> is the name of
  the directory that holds \<open>local_path\<close>, whatever the file \<open>f\<close> in that directory.
  For every other file type it is \<^verbatim>\<open>site/filetype/\<close> followed by the base name of
  \<open>local_path\<close> without its last extension: \<open>stem\<close> for a base name \<open>stem.ext\<close>,
  and the base name itself when it has no extension (dots that begin a name start no
  extension, as in \<^verbatim>\<open>os.path.splitext\<close>).
\<close>

theorem form_key_path_correct:
  assumes s: "site r = Some s" and p: "local_path r = Some p"
    and pre: "pre = [] \<or> last pre = CHR ''/''"
  shows
    "(filetype r = Some ''basebackup'' \<and> p = pre @ n @ replicate (Suc k) CHR ''/'' @ f \<and>
        n \<noteq> [] \<and> CHR ''/'' \<notin> set n \<and> CHR ''/'' \<notin> set f
        \<longrightarrow> form_key_path r = Inr (s @ ''/'' @ ''basebackup'' @ ''/'' @ n)) \<and>
     (filetype r = Some ft \<and> ft \<noteq> ''basebackup'' \<and> p = pre @ stem @ ''.'' @ ext \<and>
        CHR ''/'' \<notin> set stem \<and> (\<exists>c \<in> set stem. c \<noteq> CHR ''.'') \<and>
        CHR ''/'' \<notin> set ext \<and> CHR ''.'' \<notin> set ext
        \<longrightarrow> form_key_path r = Inr (s @ ''/'' @ ft @ ''/'' @ stem)) \<and>
     (filetype r = Some ft \<and> ft \<noteq> ''basebackup'' \<and> p = pre @ replicate j CHR ''.'' @ rest \<and>
        CHR ''/'' \<notin> set rest \<and> CHR ''.'' \<notin> set rest
        \<longrightarrow> form_key_path r = Inr (s @ ''/'' @ ft @ ''/'' @ replicate j CHR ''.'' @ rest))"
proof (intro conjI impI)
  assume a: "filetype r = Some ''basebackup'' \<and> p = pre @ n @ replicate (Suc k) CHR ''/'' @ f \<and>
        n \<noteq> [] \<and> CHR ''/'' \<notin> set n \<and> CHR ''/'' \<notin> set f"
  then have "dirname p = pre @ n" using dirname_parent [of f n pre k] by blast
  moreover have "basename (pre @ n) = n" using a pre basename_prefixed [of n pre] by blast
  ultimately show "form_key_path r = Inr (s @ ''/'' @ ''basebackup'' @ ''/'' @ n)"
    using a s p by (simp add: form_key_path_def)
next
  assume a: "filetype r = Some ft \<and> ft \<noteq> ''basebackup'' \<and> p = pre @ stem @ ''.'' @ ext \<and>
        CHR ''/'' \<notin> set stem \<and> (\<exists>c \<in> set stem. c \<noteq> CHR ''.'') \<and>
        CHR ''/'' \<notin> set ext \<and> CHR ''.'' \<notin> set ext"
  then have "CHR ''/'' \<notin> set (stem @ CHR ''.'' # ext)" by simp
  with pre have "basename (pre @ stem @ CHR ''.'' # ext) = stem @ CHR ''.'' # ext"
    by (rule basename_prefixed [rotated])
  moreover have "splitext (stem @ CHR ''.'' # ext) = (stem, CHR ''.'' # ext)"
    using a by (intro splitext_stem) simp_all
  ultimately show "form_key_path r = Inr (s @ ''/'' @ ft @ ''/'' @ stem)"
    using a s p by (simp add: form_key_path_def)
next
  assume a: "filetype r = Some ft \<and> ft \<noteq> ''basebackup'' \<and> p = pre @ replicate j CHR ''.'' @ rest \<and>
        CHR ''/'' \<notin> set rest \<and> CHR ''.'' \<notin> set rest"
  then have "CHR ''/'' \<notin> set (replicate j CHR ''.'' @ rest)" by auto
  with pre have "basename (pre @ replicate j CHR ''.'' @ rest) = replicate j CHR ''.'' @ rest"
    by (rule basename_prefixed [rotated])
  moreover have "splitext (replicate j CHR ''.'' @ rest) = (replicate j CHR ''.'' @ rest, [])"
    using a by (intro splitext_no_ext) simp_all
  ultimately show "form_key_path r = Inr (s @ ''/'' @ ft @ ''/'' @ replicate j CHR ''.'' @ rest)"
    using a s p by (simp add: form_key_path_def)
qed

theorem form_key_path_correct_witness:
  "form_key_path (example_request\<lparr>filetype := Some ''basebackup'',
       local_path := Some ''/backups/2015-07-01_0/base.tar''\<rparr>) = Inr ''default/basebackup/2015-07-01_0'' \<and>
   form_key_path example_request = Inr ''default/xlog/000000010000000000000001'' \<and>
   form_key_path (example_request\<lparr>local_path := Some ''/data/xlog/000000010000000000000001''\<rparr>)
     = Inr ''default/xlog/000000010000000000000001''"
  using form_key_path_correct [of "example_request\<lparr>filetype := Some ''basebackup'',
       local_path := Some ''/backups/2015-07-01_0/base.tar''\<rparr>" "''default''" "''/backups/2015-07-01_0/base.tar''"
       "''/backups/''" "''2015-07-01_0''" 0 "''base.tar''"]
    form_key_path_correct [of example_request "''default''" "''/data/xlog/000000010000000000000001.gz''"
       "''/data/xlog/''" _ _ _ "''xlog''" "''000000010000000000000001''" "''gz''"]
    form_key_path_correct [of "example_request\<lparr>local_path := Some ''/data/xlog/000000010000000000000001''\<rparr>"
       "''default''" "''/data/xlog/000000010000000000000001''"
       "''/data/xlog/''" _ _ _ "''xlog''" _ _ 0 "''000000010000000000000001''"]
  by (simp add: example_request_def)

section \<open>Building a storage object\<close>

text \<open>
  Claim C6 says that a missing required key raises the configuration error. For
  \<^verbatim>\<open>s3\<close> with an empty configuration the first subscript raises \<open>KeyError\<close>.
\<close>

theorem missing_key_counterexample:
  "get_object_storage_transfer example_world [] ''s3'' Map.empty = (Inl (KeyError ''aws_access_key_id''), [])"
  by (simp add: get_object_storage_transfer_def)

text \<open>
  \<open>get_object_storage_transfer\<close> for each provider name.
\<close>

lemma transfer_azure:
  "get_object_storage_transfer w cs ''azure'' val =
     (case val ''account_name'' of
        None \<Rightarrow> (Inl (KeyError ''account_name''), cs)
      | Some account_name \<Rightarrow>
          (case val ''account_key'' of
             None \<Rightarrow> (Inl (KeyError ''account_key''), cs)
           | Some account_key \<Rightarrow>
               new_storage w cs (AzureTransfer account_name account_key
                 (dict_get val ''container_name'' (PStr ''pghoard'')))))"
  by (simp add: get_object_storage_transfer_def)

lemma transfer_google:
  "get_object_storage_transfer w cs ''google'' val =
     (case val ''project_id'' of
        None \<Rightarrow> (Inl (KeyError ''project_id''), cs)
      | Some project_id \<Rightarrow>
          new_storage w cs (GoogleTransfer project_id
            (dict_get val ''bucket_name'' (PStr ''pghoard''))
            (dict_get val ''credential_file'' PNone)))"
  by (simp add: get_object_storage_transfer_def)

lemma transfer_s3:
  "get_object_storage_transfer w cs ''s3'' val =
     (case val ''aws_access_key_id'' of
        None \<Rightarrow> (Inl (KeyError ''aws_access_key_id''), cs)
      | Some aws_access_key_id \<Rightarrow>
          (case val ''aws_secret_access_key'' of
             None \<Rightarrow> (Inl (KeyError ''aws_secret_access_key''), cs)
           | Some aws_secret_access_key \<Rightarrow>
               (case val ''bucket_name'' of
                  None \<Rightarrow> (Inl (KeyError ''bucket_name''), cs)
                | Some bucket_name \<Rightarrow>
                    new_storage w cs
                      (S3Transfer aws_access_key_id aws_secret_access_key
                         (dict_get val ''region'' (PStr [])) bucket_name
                         (dict_get val ''host'' PNone) (dict_get val ''port'' PNone)
                         (dict_get val ''is_secure'' (PBool False))))))"
  by (simp add: get_object_storage_transfer_def)

lemma transfer_unknown:
  "key \<noteq> ''azure'' \<Longrightarrow> key \<noteq> ''google'' \<Longrightarrow> key \<noteq> ''s3'' \<Longrightarrow>
   get_object_storage_transfer w cs key val = (Inl (InvalidConfigurationError key), cs)"
  by (simp add: get_object_storage_transfer_def)

lemma new_storage_fst:
  "fst (new_storage w cs st) = (case construct w (length cs) st of Some e \<Rightarrow> Inl e | None \<Rightarrow> Inr st)"
  by (simp add: new_storage_def split: option.splits)

text \<open>
  Claim C6, as amended. When the transfer class itself does not raise it,
  \<open>get_object_storage_transfer\<close> raises \<open>InvalidConfigurationError\<close> if and only if
  the provider name is none of \<^verbatim>\<open>azure\<close>, \<^verbatim>\<open>google\<close>, \<^verbatim>\<open>s3\<close>. When a required key
  of a known provider is missing, it raises \<open>KeyError\<close> for a missing required key, and
  nothing has been constructed.
\<close>

theorem get_object_storage_transfer_errors:
  assumes ctor: "\<And>st m. construct w (length cs) st \<noteq> Some (InvalidConfigurationError m)"
  shows "((\<exists>m. fst (get_object_storage_transfer w cs key val) = Inl (InvalidConfigurationError m))
            = (key \<noteq> ''azure'' \<and> key \<noteq> ''google'' \<and> key \<noteq> ''s3'')) \<and>
         ((\<exists>k \<in> set (required_keys key). val k = None) \<longrightarrow>
            (\<exists>k \<in> set (required_keys key). val k = None \<and>
               get_object_storage_transfer w cs key val = (Inl (KeyError k), cs)))"
proof -
  have ns: "fst (new_storage w cs st) \<noteq> Inl (InvalidConfigurationError m)" for st m
    using ctor [of st m] by (auto simp: new_storage_fst split: option.splits)
  consider (azure) "key = ''azure''" | (google) "key = ''google''" | (s3) "key = ''s3''"
    | (unknown) "key \<noteq> ''azure''" "key \<noteq> ''google''" "key \<noteq> ''s3''"
    by blast
  then show ?thesis
  proof cases
    case azure
    have "required_keys ''azure'' = [''account_name'', ''account_key'']"
      by (simp add: required_keys_def)
    then show ?thesis unfolding azure
      by (auto simp: transfer_azure ns split: option.splits)
  next
    case google
    have "required_keys ''google'' = [''project_id'']"
      by (simp add: required_keys_def)
    then show ?thesis unfolding google
      by (auto simp: transfer_google ns split: option.splits)
  next
    case s3
    have "required_keys ''s3'' = [''aws_access_key_id'', ''aws_secret_access_key'', ''bucket_name'']"
      by (simp add: required_keys_def)
    then show ?thesis unfolding s3
      by (auto simp: transfer_s3 ns split: option.splits)
  next
    case unknown
    then have "required_keys key = []" by (simp add: required_keys_def)
    with unknown show ?thesis by (simp add: transfer_unknown)
  qed
qed

theorem get_object_storage_transfer_errors_witness:
  "(\<exists>m. fst (get_object_storage_transfer example_world [] ''swift'' s3_config) = Inl (InvalidConfigurationError m)) \<and>
   (\<exists>k \<in> set (required_keys ''google''). Map.empty k = (None :: pyval option) \<and>
      get_object_storage_transfer example_world [] ''google'' Map.empty = (Inl (KeyError k), []))"
  using get_object_storage_transfer_errors [of example_world "[]" "''swift''" s3_config]
    get_object_storage_transfer_errors [of example_world "[]" "''google''" Map.empty]
  by (simp add: example_world_def required_keys_def)

section \<open>Resolving the storage of a site\<close>

text \<open>
  An entry with a known provider and its required keys is built to the same storage
  whatever has been called before, when the transfer classes raise nothing.
\<close>

lemma transfer_complete:
  assumes ctor: "\<And>n st. construct w n st = None" and ok: "complete_entry key val"
  shows "get_object_storage_transfer w cs key val =
           (Inr (projr (fst (get_object_storage_transfer w [] key val))),
            cs @ [Construct (projr (fst (get_object_storage_transfer w [] key val)))])"
proof -
  have ns: "new_storage w cs' st = (Inr st, cs' @ [Construct st])" for cs' st
    by (simp add: new_storage_def ctor)
  from ok consider (azure) "key = ''azure''" | (google) "key = ''google''" | (s3) "key = ''s3''"
    unfolding complete_entry_def by blast
  then show ?thesis
  proof cases
    case azure
    with ok obtain a b where "val ''account_name'' = Some a" "val ''account_key'' = Some b"
      by (auto simp: complete_entry_def required_keys_def)
    then show ?thesis unfolding azure by (simp add: transfer_azure ns)
  next
    case google
    with ok obtain a where "val ''project_id'' = Some a"
      by (auto simp: complete_entry_def required_keys_def)
    then show ?thesis unfolding google by (simp add: transfer_google ns)
  next
    case s3
    with ok obtain a b c where "val ''aws_access_key_id'' = Some a"
      "val ''aws_secret_access_key'' = Some b" "val ''bucket_name'' = Some c"
      by (auto simp: complete_entry_def required_keys_def)
    then show ?thesis unfolding s3 by (simp add: transfer_s3 ns)
  qed
qed

lemma loop_complete:
  assumes ctor: "\<And>n st. construct w n st = None"
  shows "\<forall>(k, v) \<in> set cfg. complete_entry k v \<Longrightarrow>
         \<exists>self'. get_object_storage_loop w self s storage cfg =
            (Inr (if cfg = [] then storage
                  else Some (projr (fst (get_object_storage_transfer w [] (fst (last cfg)) (snd (last cfg)))))),
             self') \<and>
           site_transfers self' =
             (if cfg = [] then site_transfers self
              else (site_transfers self)(s \<mapsto>
                     projr (fst (get_object_storage_transfer w [] (fst (last cfg)) (snd (last cfg))))))"
proof (induction cfg arbitrary: self storage)
  case Nil
  then show ?case by simp
next
  case (Cons kv cfg)
  obtain k v where kv: "kv = (k, v)" by (cases kv)
  let ?st = "projr (fst (get_object_storage_transfer w [] k v))"
  let ?self1 = "self\<lparr>calls := calls self @ [Construct ?st],
                      site_transfers := (site_transfers self)(s \<mapsto> ?st)\<rparr>"
  from Cons.prems kv have ok: "complete_entry k v" and rest: "\<forall>(k, v) \<in> set cfg. complete_entry k v"
    by auto
  have step: "get_object_storage_loop w self s storage (kv # cfg) =
              get_object_storage_loop w ?self1 s (Some ?st) cfg"
    unfolding kv by (simp add: transfer_complete [OF ctor ok, of "calls self"])
  from Cons.IH [OF rest, of ?self1 "Some ?st"] obtain self' where
    IH: "get_object_storage_loop w ?self1 s (Some ?st) cfg =
            (Inr (if cfg = [] then Some ?st
                  else Some (projr (fst (get_object_storage_transfer w [] (fst (last cfg)) (snd (last cfg)))))),
             self')"
        "site_transfers self' =
             (if cfg = [] then site_transfers ?self1
              else (site_transfers ?self1)(s \<mapsto>
                     projr (fst (get_object_storage_transfer w [] (fst (last cfg)) (snd (last cfg))))))"
    by blast
  show ?case
    unfolding step using IH by (cases "cfg = []") (auto simp: kv fun_eq_iff)
qed

text \<open>
  Claim C5, as amended. The loop of \<open>get_object_storage\<close> builds a storage from every
  entry and stores each in \<open>site_transfers\<close>, so for a site that is not cached yet and
  whose entries can all be built, the storage returned and cached is the one built from
  the last entry.
\<close>

theorem last_entry_wins:
  assumes ctor: "\<And>n st. construct w n st = None"
    and fresh: "site_transfers self s = None"
    and cfg: "config self s = Some (Some (front @ [(key, val)]))"
    and ok: "\<forall>(k, v) \<in> set (front @ [(key, val)]). complete_entry k v"
  shows "\<exists>st self'. get_object_storage w self s = (Inr (Some st), self') \<and>
           site_transfers self' = (site_transfers self)(s \<mapsto> st) \<and>
           fst (get_object_storage_transfer w [] key val) = Inr st"
proof -
  from ok have "complete_entry key val" by simp
  from transfer_complete [OF ctor this, of "[]"]
  have built: "fst (get_object_storage_transfer w [] key val) =
               Inr (projr (fst (get_object_storage_transfer w [] key val)))"
    by (metis fst_conv)
  from loop_complete [OF ctor ok, of self s None] built
  show ?thesis
    by (auto simp: get_object_storage_def fresh cfg)
qed

text \<open>
  Claim C5 says that the first entry of the site's mapping gives the cached storage.
  With an \<^verbatim>\<open>s3\<close> entry followed by a \<^verbatim>\<open>google\<close> entry, the first resolution
  returns and caches the Google storage, not the S3 storage built from the first entry.
\<close>

theorem first_entry_counterexample:
  "get_object_storage_transfer example_world [] ''s3'' s3_config = (Inr s3_storage, [Construct s3_storage]) \<and>
   fst (get_object_storage example_world (init two_provider_config [] []) ''default'') = Inr (Some google_storage) \<and>
   site_transfers (snd (get_object_storage example_world (init two_provider_config [] []) ''default'')) ''default''
     = Some google_storage \<and> google_storage \<noteq> s3_storage"
  by (simp add: get_object_storage_def init_def two_provider_config_def transfer_s3 transfer_google
      new_storage_def example_world_def s3_config_def google_config_def s3_storage_def google_storage_def dict_get_def)

theorem last_entry_wins_witness:
  "\<exists>st self'. get_object_storage example_world (init two_provider_config [] []) ''default'' = (Inr (Some st), self') \<and>
           site_transfers self' = (site_transfers (init two_provider_config [] []))(''default'' \<mapsto> st) \<and>
           fst (get_object_storage_transfer example_world [] ''google'' google_config) = Inr st"
  using last_entry_wins [of example_world "init two_provider_config [] []" "''default''"
      "[(''s3'', s3_config)]" "''google''" google_config]
  by (simp add: example_world_def init_def two_provider_config_def complete_entry_def required_keys_def
      s3_config_def google_config_def)

text \<open>
  Claim C10. For a site whose \<^verbatim>\<open>object_storage\<close> mapping is empty or missing,
  \<open>get_object_storage\<close> leaves \<open>site_transfers\<close> as it was; when nothing is cached
  for the site it returns \<^verbatim>\<open>None\<close> with the agent unchanged, so the next call reads
  the configuration again: after the mapping has become \<open>cfg'\<close>, it runs the loop
  over \<open>cfg'\<close>.
\<close>

theorem empty_config_not_cached:
  assumes empty: "config self s = Some None \<or> config self s = Some (Some [])"
  shows "site_transfers (snd (get_object_storage w self s)) = site_transfers self \<and>
         (site_transfers self s = None \<longrightarrow>
            get_object_storage w self s = (Inr None, self) \<and>
            get_object_storage w (snd (get_object_storage w self s)\<lparr>config := (config self)(s \<mapsto> Some cfg')\<rparr>) s
              = get_object_storage_loop w (self\<lparr>config := (config self)(s \<mapsto> Some cfg')\<rparr>) s None cfg')"
  using empty by (auto simp: get_object_storage_def split: option.splits)

theorem empty_config_not_cached_witness:
  "site_transfers (snd (get_object_storage example_world (init no_provider_config [] []) ''default''))
     = site_transfers (init no_provider_config [] []) \<and>
   get_object_storage example_world (init no_provider_config [] []) ''default''
     = (Inr None, init no_provider_config [] []) \<and>
   fst (get_object_storage example_world
     (snd (get_object_storage example_world (init no_provider_config [] []) ''default'')
        \<lparr>config := (config (init no_provider_config [] []))(''default'' \<mapsto> Some [(''s3'', s3_config)])\<rparr>) ''default'')
     = Inr (Some s3_storage)"
  using empty_config_not_cached [of "init no_provider_config [] []" "''default''" example_world "[(''s3'', s3_config)]"]
  by (simp add: get_object_storage_def init_def no_provider_config_def transfer_s3 new_storage_def
      example_world_def s3_config_def s3_storage_def dict_get_def)

section \<open>What the handlers leave alone\<close>

text \<open>
  Resolving a storage touches \<open>site_transfers\<close> and the record of calls only.
\<close>

lemma transfer_calls:
  "length cs \<le> length (snd (get_object_storage_transfer w cs key val))"
proof -
  have ns: "length cs \<le> length (snd (new_storage w cs st))" for st
    by (simp add: new_storage_def split: option.splits)
  consider (azure) "key = ''azure''" | (google) "key = ''google''" | (s3) "key = ''s3''"
    | (unknown) "key \<noteq> ''azure''" "key \<noteq> ''google''" "key \<noteq> ''s3''"
    by blast
  then show ?thesis
  proof cases
    case azure
    show ?thesis unfolding azure by (simp add: transfer_azure ns split: option.splits)
  next
    case google
    show ?thesis unfolding google by (simp add: transfer_google ns split: option.splits)
  next
    case s3
    show ?thesis unfolding s3 by (simp add: transfer_s3 ns split: option.splits)
  next
    case unknown
    then show ?thesis by (simp add: transfer_unknown)
  qed
qed

lemma loop_frame:
  "get_object_storage_loop w self s st cfg = (r, self') \<Longrightarrow>
     compression_queue self' = compression_queue self \<and> transfer_queue self' = transfer_queue self \<and>
     state self' = state self \<and> callback_queues self' = callback_queues self \<and>
     running self' = running self \<and> config self' = config self \<and>
     length (calls self) \<le> length (calls self')"
proof (induction cfg arbitrary: self st)
  case Nil
  then show ?case by simp
next
  case (Cons kv cfg)
  obtain k v where kv: "kv = (k, v)" by (cases kv)
  obtain r1 cs where t: "get_object_storage_transfer w (calls self) k v = (r1, cs)"
    by (cases "get_object_storage_transfer w (calls self) k v")
  with transfer_calls [of "calls self" w k v] have len: "length (calls self) \<le> length cs" by simp
  show ?case
  proof (cases r1)
    case (Inl e)
    with Cons.prems t kv len show ?thesis by auto
  next
    case (Inr st1)
    with Cons.prems t kv have
      "get_object_storage_loop w (self\<lparr>calls := cs, site_transfers := (site_transfers self)(s \<mapsto> st1)\<rparr>)
         s (Some st1) cfg = (r, self')" by simp
    from Cons.IH [OF this] len show ?thesis by simp
  qed
qed

lemma get_object_storage_frame:
  "get_object_storage w self s = (r, self') \<Longrightarrow>
     compression_queue self' = compression_queue self \<and> transfer_queue self' = transfer_queue self \<and>
     state self' = state self \<and> callback_queues self' = callback_queues self \<and>
     running self' = running self \<and> config self' = config self \<and>
     length (calls self) \<le> length (calls self')"
  unfolding get_object_storage_def
  by (auto split: option.splits dest: loop_frame)

section \<open>Downloads\<close>

text \<open>
  Claim C7. When the storage of the site is resolved and the fetch of the key raises
  \<open>FileNotFoundFromStorageError\<close>, \<open>handle_download\<close> returns a result with
  \<open>success = False\<close>, puts nothing on the compression queue and nothing back on the
  transfer queue, and leaves the request as it was.
\<close>

theorem download_not_found:
  assumes gos: "get_object_storage w self s = (Inr (Some storage), self1)"
    and fetch: "get_contents_to_string w (length (calls self1)) storage key = Inl FileNotFoundFromStorageError"
    and hd: "handle_download w self s key file_to_transfer = (res, ftt, self')"
  shows "success res = False \<and> compression_queue self' = compression_queue self \<and>
         transfer_queue self' = transfer_queue self \<and> ftt = file_to_transfer"
  using hd get_object_storage_frame [OF gos]
  by (auto simp: handle_download_def handle_download_try_def gos fetch)

theorem download_not_found_witness:
  "get_contents_to_string example_world 1 s3_storage ''default/xlog/000000010000000000000002''
     = Inl FileNotFoundFromStorageError \<and>
   handle_download example_world (init example_config [] []) ''default''
       ''default/xlog/000000010000000000000002'' download_request
     = (\<lparr>success = False, call_callback = None\<rparr>, download_request,
        (init example_config [] [])\<lparr>site_transfers := [''default'' \<mapsto> s3_storage],
           calls := [Construct s3_storage,
                     GetContentsToString s3_storage ''default/xlog/000000010000000000000002'']\<rparr>)"
  using download_not_found [of example_world "init example_config [] []" "''default''" s3_storage
      "(init example_config [] [])\<lparr>calls := [Construct s3_storage], site_transfers := [''default'' \<mapsto> s3_storage]\<rparr>"
      "''default/xlog/000000010000000000000002''" download_request]
  by (simp add: handle_download_def handle_download_try_def get_object_storage_def init_def
      example_config_def transfer_s3 new_storage_def example_world_def s3_config_def s3_storage_def
      dict_get_def)

text \<open>
  Claim C9. A download request without \<^verbatim>\<open>callback_queue\<close> always gets
  \<open>success = False\<close> and nothing is put on the compression queue, whatever the
  backend answers: after a successful fetch the subscript
  \<^verbatim>\<open>file_to_transfer["callback_queue"]\<close> raises \<open>KeyError\<close> inside the
  \<^verbatim>\<open>try\<close>. (The witness is a fetch that succeeds.)
\<close>

theorem download_without_callback_queue:
  assumes cq: "callback_queue file_to_transfer = None"
    and hd: "handle_download w self s key file_to_transfer = (res, ftt, self')"
  shows "success res = False \<and> compression_queue self' = compression_queue self"
proof -
  obtain r self1 where gos: "get_object_storage w self s = (r, self1)"
    by (cases "get_object_storage w self s")
  from get_object_storage_frame [OF gos] hd cq show ?thesis
    by (auto simp: handle_download_def handle_download_try_def gos Let_def
        split: sum.splits option.splits)
qed

theorem download_without_callback_queue_witness:
  "get_contents_to_string example_world 0 s3_storage ''default/xlog/000000010000000000000001''
     = Inr (''wal'', [(''compression-algorithm'', ''snappy'')]) \<and>
   handle_download example_world cached_agent ''default'' ''default/xlog/000000010000000000000001''
       (download_request\<lparr>callback_queue := None\<rparr>)
     = (\<lparr>success = False, call_callback = None\<rparr>,
        download_request\<lparr>callback_queue := None, file_size := Some 3\<rparr>,
        cached_agent\<lparr>calls := [GetContentsToString s3_storage ''default/xlog/000000010000000000000001'']\<rparr>)"
  using download_without_callback_queue [of "download_request\<lparr>callback_queue := None\<rparr>"
      example_world cached_agent "''default''" "''default/xlog/000000010000000000000001''"]
  by (simp add: handle_download_def handle_download_try_def get_object_storage_def cached_agent_def
      init_def example_world_def download_request_def)

text \<open>
  Claim C8, as amended: for a download request that carries \<^verbatim>\<open>callback_queue\<close> and
  \<^verbatim>\<open>target_path\<close>. When the fetch succeeds, the request's \<^verbatim>\<open>file_size\<close> becomes
  the length of the content, exactly one message is appended to the compression queue
  (content, metadata, the target path as \<^verbatim>\<open>local_path\<close>, the site, the request's
  callback queue, the type \<^verbatim>\<open>DECOMPRESSION\<close>), and the result is
  \<open>success = True\<close> with \<open>call_callback = False\<close>, for which \<open>push_result\<close> sends
  nothing.
\<close>

theorem download_forwarded:
  assumes gos: "get_object_storage w self s = (Inr (Some storage), self1)"
    and fetch: "get_contents_to_string w (length (calls self1)) storage key = Inr (content, md)"
    and cq: "callback_queue file_to_transfer = Some cq"
    and tp: "target_path file_to_transfer = Some tp"
    and hd: "handle_download w self s key file_to_transfer = (res, ftt, self')"
  shows "res = \<lparr>success = True, call_callback = Some False\<rparr> \<and>
         ftt = file_to_transfer\<lparr>file_size := Some (int (length content))\<rparr> \<and>
         compression_queue self' = compression_queue self @
           [\<lparr>msg_blob = content, msg_callback_queue = cq, msg_local_path = tp,
             msg_metadata = md, msg_site = s, msg_type = ''DECOMPRESSION''\<rparr>] \<and>
         transfer_queue self' = transfer_queue self \<and>
         push_result a ftt res = a"
  using hd get_object_storage_frame [OF gos]
  by (auto simp: handle_download_def handle_download_try_def gos fetch cq tp push_result_def)

theorem download_forwarded_witness:
  "handle_download example_world (init example_config [] []) ''default''
       ''default/xlog/000000010000000000000001'' download_request
     = (\<lparr>success = True, call_callback = Some False\<rparr>,
        download_request\<lparr>file_size := Some 3\<rparr>,
        (init example_config [] [])\<lparr>site_transfers := [''default'' \<mapsto> s3_storage],
           calls := [Construct s3_storage,
                     GetContentsToString s3_storage ''default/xlog/000000010000000000000001''],
           compression_queue :=
             [\<lparr>msg_blob = ''wal'', msg_callback_queue = 1,
               msg_local_path = ''/pg/xlog/000000010000000000000001'',
               msg_metadata = [(''compression-algorithm'', ''snappy'')],
               msg_site = ''default'', msg_type = ''DECOMPRESSION''\<rparr>]\<rparr>)"
  using download_forwarded [of example_world "init example_config [] []" "''default''" s3_storage
      "(init example_config [] [])\<lparr>calls := [Construct s3_storage], site_transfers := [''default'' \<mapsto> s3_storage]\<rparr>"
      "''default/xlog/000000010000000000000001''" "''wal''" "[(''compression-algorithm'', ''snappy'')]"
      download_request 1 "''/pg/xlog/000000010000000000000001''"]
  by (simp add: handle_download_def handle_download_try_def get_object_storage_def init_def
      example_config_def transfer_s3 new_storage_def example_world_def s3_config_def s3_storage_def
      dict_get_def download_request_def)

text \<open>
  Claim C8 as stated, for every download whose fetch succeeds, fails for a request
  without \<^verbatim>\<open>callback_queue\<close>: the storage is resolved, the fetch returns the
  content, and the result is a failure with an empty compression queue.
\<close>

theorem download_forwarded_counterexample:
  "get_object_storage example_world (init example_config [] []) ''default''
     = (Inr (Some s3_storage),
        (init example_config [] [])\<lparr>calls := [Construct s3_storage], site_transfers := [''default'' \<mapsto> s3_storage]\<rparr>) \<and>
   get_contents_to_string example_world 1 s3_storage ''default/xlog/000000010000000000000001''
     = Inr (''wal'', [(''compression-algorithm'', ''snappy'')]) \<and>
   success (fst (handle_download example_world (init example_config [] []) ''default''
       ''default/xlog/000000010000000000000001'' (download_request\<lparr>callback_queue := None\<rparr>))) = False \<and>
   compression_queue (snd (snd (handle_download example_world (init example_config [] []) ''default''
       ''default/xlog/000000010000000000000001'' (download_request\<lparr>callback_queue := None\<rparr>)))) = []"
  by (simp add: handle_download_def handle_download_try_def get_object_storage_def init_def
      example_config_def transfer_s3 new_storage_def example_world_def s3_config_def s3_storage_def
      dict_get_def download_request_def)

section \<open>Uploads\<close>

text \<open>
  Claim C2. When the storage of the site is resolved and the store (from memory when
  the request has a \<^verbatim>\<open>blob\<close>, from disk otherwise) raises, \<open>handle_upload\<close> calls
  \<^verbatim>\<open>time.sleep(0.5)\<close>, appends the request itself to the transfer queue, and returns
  \<open>success = False\<close> with \<open>call_callback = False\<close>, for which \<open>push_result\<close>
  delivers nothing.
\<close>

theorem failed_upload_requeued:
  assumes gos: "get_object_storage w self s = (Inr (Some storage), self1)"
    and lp: "local_path file_to_transfer = Some p"
    and md: "metadata file_to_transfer = Some md"
    and fails:
      "(case blob file_to_transfer of
          Some b \<Rightarrow> store_file_from_memory w (length (calls self1)) storage key b md
        | None \<Rightarrow> store_file_from_disk w (length (calls self1)) storage key p md) = Some e"
  shows "\<exists>self' c. handle_upload w self s key file_to_transfer
             = Inr (\<lparr>success = False, call_callback = Some False\<rparr>, self') \<and>
           calls self' = calls self1 @ [c, Sleep (1 / 2)] \<and>
           transfer_queue self' = transfer_queue self @ [file_to_transfer] \<and>
           compression_queue self' = compression_queue self \<and>
           push_result self' file_to_transfer \<lparr>success = False, call_callback = Some False\<rparr> = self' \<and>
           callback_queues self' = callback_queues self"
proof (cases "blob file_to_transfer")
  case None
  with fails get_object_storage_frame [OF gos] show ?thesis
    by (simp add: handle_upload_def handle_upload_try_def gos lp md push_result_def)
next
  case (Some b)
  with fails get_object_storage_frame [OF gos] show ?thesis
    by (simp add: handle_upload_def handle_upload_try_def gos lp md push_result_def)
qed

theorem failed_upload_requeued_witness:
  "\<exists>self' c. handle_upload failing_world cached_agent ''default''
               ''default/xlog/000000010000000000000001'' example_request
             = Inr (\<lparr>success = False, call_callback = Some False\<rparr>, self') \<and>
           calls self' = calls cached_agent @ [c, Sleep (1 / 2)] \<and>
           transfer_queue self' = transfer_queue cached_agent @ [example_request] \<and>
           compression_queue self' = compression_queue cached_agent \<and>
           push_result self' example_request \<lparr>success = False, call_callback = Some False\<rparr> = self' \<and>
           callback_queues self' = callback_queues cached_agent"
  using failed_upload_requeued [of failing_world cached_agent "''default''" s3_storage cached_agent
      example_request "''/data/xlog/000000010000000000000001.gz''" "[]"
      "''default/xlog/000000010000000000000001''" "StorageError ''unavailable''"]
  by (simp add: get_object_storage_def cached_agent_def init_def failing_world_def example_world_def
      example_request_def)

section \<open>Statistics\<close>

text \<open>
  What \<open>set_state_defaults_for_site\<close> and \<open>update_leaf\<close> do to the leaves.
\<close>

lemma defaults_leaf_at:
  "leaf_at (set_state_defaults_for_site self s) s' o' f' =
     (if state self s = None \<and> s' = s
      then (if (o' = ''upload'' \<or> o' = ''download'') \<and>
               (f' = ''basebackup'' \<or> f' = ''xlog'' \<or> f' = ''timeline'')
            then Some EMPTY else None)
      else leaf_at self s' o' f')"
  by (simp add: leaf_at_def set_state_defaults_for_site_def)

lemma defaults_counters:
  "counters (set_state_defaults_for_site self s) s' o' f' = counters self s' o' f'"
  by (simp add: counters_def defaults_leaf_at) (simp add: leaf_at_def)

lemma defaults_frame:
  "compression_queue (set_state_defaults_for_site self s) = compression_queue self"
  "transfer_queue (set_state_defaults_for_site self s) = transfer_queue self"
  "callback_queues (set_state_defaults_for_site self s) = callback_queues self"
  "running (set_state_defaults_for_site self s) = running self"
  "calls (set_state_defaults_for_site self s) = calls self"
  by (simp_all add: set_state_defaults_for_site_def)

lemma defaults_ready:
  "site_ready self s' \<Longrightarrow> site_ready (set_state_defaults_for_site self s) s'"
  by (auto simp: site_ready_def defaults_leaf_at) (simp_all add: set_state_defaults_for_site_def split: if_splits)

lemma defaults_leaf:
  assumes "site_ready self s" "oper = ''upload'' \<or> oper = ''download''"
    "ft = ''basebackup'' \<or> ft = ''xlog'' \<or> ft = ''timeline''"
  shows "leaf_at (set_state_defaults_for_site self s) s oper ft = Some (counters self s oper ft)"
proof (cases "state self s")
  case None
  then have "leaf_at self s oper ft = None" by (simp add: leaf_at_def)
  with None assms show ?thesis by (auto simp: defaults_leaf_at counters_def)
next
  case (Some a)
  with assms have "leaf_at self s oper ft \<noteq> None" by (auto simp: site_ready_def)
  with Some show ?thesis by (auto simp: defaults_leaf_at counters_def)
qed

lemma update_leaf_ok:
  assumes "leaf_at self s oper ft = Some l"
  shows "\<exists>self'. update_leaf self s oper ft f = Inr self' \<and>
           leaf_at self' s oper ft = Some (f l) \<and>
           (\<forall>s' o' f'. (s', o', f') \<noteq> (s, oper, ft) \<longrightarrow> leaf_at self' s' o' f' = leaf_at self s' o' f') \<and>
           (\<forall>s'. (state self' s' = None) = (state self s' = None)) \<and>
           compression_queue self' = compression_queue self \<and>
           transfer_queue self' = transfer_queue self \<and>
           callback_queues self' = callback_queues self \<and>
           running self' = running self \<and> calls self' = calls self"
  using assms
  by (auto simp: update_leaf_def leaf_at_def split: option.splits)

lemma update_leaf_ready:
  assumes l: "leaf_at self s oper ft = Some l" and u: "update_leaf self s oper ft f = Inr self'"
    and r: "site_ready self x"
  shows "site_ready self' x"
proof -
  from update_leaf_ok [OF l, of f] u have
    a: "leaf_at self' s oper ft = Some (f l)"
    and b: "\<And>s' o' f'. (s', o', f') \<noteq> (s, oper, ft) \<Longrightarrow> leaf_at self' s' o' f' = leaf_at self s' o' f'"
    and c: "\<And>s'. (state self' s' = None) = (state self s' = None)"
    by auto
  have "leaf_at self' x o' f' \<noteq> None" if "leaf_at self x o' f' \<noteq> None" for o' f'
    using that a b [of x o' f'] by (cases "(x, o', f') = (s, oper, ft)") auto
  with r c [of x] show ?thesis unfolding site_ready_def by blast
qed

lemma increment_statistics_ok:
  assumes ready: "site_ready self s"
    and oper: "oper = ''upload'' \<or> oper = ''download''"
    and ft: "ft = ''basebackup'' \<or> ft = ''xlog'' \<or> ft = ''timeline''"
  shows "\<exists>self' n. increment_statistics w self s oper ft ftt res t0 = Inr self' \<and>
           length (calls self) \<le> n \<and> length (calls self) \<le> length (calls self') \<and>
           counters self' s oper ft =
             (if success res
              then (counters self s oper ft)
                     \<lparr>data := data (counters self s oper ft) + (case file_size ftt of None \<Rightarrow> 0 | Some k \<Rightarrow> k),
                      count := count (counters self s oper ft) + 1,
                      time_taken := time_taken (counters self s oper ft) + (time_time w n - t0)\<rparr>
              else (counters self s oper ft)\<lparr>failures := failures (counters self s oper ft) + 1\<rparr>) \<and>
           (\<forall>s' o' f'. (s', o', f') \<noteq> (s, oper, ft) \<longrightarrow> counters self' s' o' f' = counters self s' o' f') \<and>
           (\<forall>x. site_ready self x \<longrightarrow> site_ready self' x) \<and>
           compression_queue self' = compression_queue self \<and>
           transfer_queue self' = transfer_queue self \<and>
           callback_queues self' = callback_queues self \<and>
           running self' = running self"
proof -
  let ?d = "set_state_defaults_for_site self s"
  let ?l = "counters self s oper ft"
  let ?size = "case file_size ftt of None \<Rightarrow> 0 | Some k \<Rightarrow> k"
  have l0: "leaf_at ?d s oper ft = Some ?l" by (rule defaults_leaf [OF ready oper ft])
  have rd: "site_ready ?d x" if "site_ready self x" for x using that by (rule defaults_ready)
  show ?thesis
  proof (cases "success res")
    case False
    from update_leaf_ok [OF l0, of "\<lambda>l. l\<lparr>failures := failures l + 1\<rparr>"] obtain self' where
      u: "update_leaf ?d s oper ft (\<lambda>l. l\<lparr>failures := failures l + 1\<rparr>) = Inr self'"
      and a: "leaf_at self' s oper ft = Some (?l\<lparr>failures := failures ?l + 1\<rparr>)"
      and b: "\<forall>s' o' f'. (s', o', f') \<noteq> (s, oper, ft) \<longrightarrow> leaf_at self' s' o' f' = leaf_at ?d s' o' f'"
      and fr: "compression_queue self' = compression_queue ?d" "transfer_queue self' = transfer_queue ?d"
        "callback_queues self' = callback_queues ?d" "running self' = running ?d" "calls self' = calls ?d"
      by blast
    have inc: "increment_statistics w self s oper ft ftt res t0 = Inr self'"
      using False u by (simp add: increment_statistics_def)
    have other: "counters self' s' o' f' = counters self s' o' f'" if "(s', o', f') \<noteq> (s, oper, ft)" for s' o' f'
      using b that defaults_counters [of self s s' o' f'] by (simp add: counters_def)
    have r: "site_ready self' x" if "site_ready self x" for x
      using update_leaf_ready [OF l0 u rd [OF that]] .
    show ?thesis
      apply (rule exI [of _ self'], rule exI [of _ "length (calls self)"])
      using False inc a other r fr by (simp add: counters_def defaults_frame)
  next
    case True
    from update_leaf_ok [OF l0, of "\<lambda>l. l\<lparr>count := count l + 1\<rparr>"] obtain self2 where
      u2: "update_leaf ?d s oper ft (\<lambda>l. l\<lparr>count := count l + 1\<rparr>) = Inr self2"
      and a2: "leaf_at self2 s oper ft = Some (?l\<lparr>count := count ?l + 1\<rparr>)"
      and b2: "\<forall>s' o' f'. (s', o', f') \<noteq> (s, oper, ft) \<longrightarrow> leaf_at self2 s' o' f' = leaf_at ?d s' o' f'"
      and fr2: "compression_queue self2 = compression_queue ?d" "transfer_queue self2 = transfer_queue ?d"
        "callback_queues self2 = callback_queues ?d" "running self2 = running ?d" "calls self2 = calls ?d"
      by blast
    from update_leaf_ok [OF a2, of "\<lambda>l. l\<lparr>data := data l + ?size\<rparr>"] obtain self3 where
      u3: "update_leaf self2 s oper ft (\<lambda>l. l\<lparr>data := data l + ?size\<rparr>) = Inr self3"
      and a3: "leaf_at self3 s oper ft = Some (?l\<lparr>count := count ?l + 1, data := data ?l + ?size\<rparr>)"
      and b3: "\<forall>s' o' f'. (s', o', f') \<noteq> (s, oper, ft) \<longrightarrow> leaf_at self3 s' o' f' = leaf_at self2 s' o' f'"
      and fr3: "compression_queue self3 = compression_queue self2" "transfer_queue self3 = transfer_queue self2"
        "callback_queues self3 = callback_queues self2" "running self3 = running self2" "calls self3 = calls self2"
      by auto
    let ?self4 = "self3\<lparr>calls := calls self3 @ [Time]\<rparr>"
    let ?now = "time_time w (length (calls self3))"
    have a4: "leaf_at ?self4 s oper ft = Some (?l\<lparr>count := count ?l + 1, data := data ?l + ?size\<rparr>)"
      using a3 by (simp add: leaf_at_def)
    from update_leaf_ok [OF a4, of "\<lambda>l. l\<lparr>time_taken := time_taken l + (?now - t0)\<rparr>"] obtain self' where
      u5: "update_leaf ?self4 s oper ft (\<lambda>l. l\<lparr>time_taken := time_taken l + (?now - t0)\<rparr>) = Inr self'"
      and a5: "leaf_at self' s oper ft =
                 Some (?l\<lparr>count := count ?l + 1, data := data ?l + ?size,
                         time_taken := time_taken ?l + (?now - t0)\<rparr>)"
      and b5: "\<forall>s' o' f'. (s', o', f') \<noteq> (s, oper, ft) \<longrightarrow> leaf_at self' s' o' f' = leaf_at ?self4 s' o' f'"
      and fr5: "compression_queue self' = compression_queue ?self4" "transfer_queue self' = transfer_queue ?self4"
        "callback_queues self' = callback_queues ?self4" "running self' = running ?self4" "calls self' = calls ?self4"
      by auto
    have inc: "increment_statistics w self s oper ft ftt res t0 = Inr self'"
      using True u2 u3 u5 by (simp add: increment_statistics_def Let_def)
    have l4: "leaf_at ?self4 s' o' f' = leaf_at self3 s' o' f'" for s' o' f'
      by (simp add: leaf_at_def)
    have other: "counters self' s' o' f' = counters self s' o' f'" if "(s', o', f') \<noteq> (s, oper, ft)" for s' o' f'
      using b2 b3 b5 l4 that defaults_counters [of self s s' o' f'] by (simp add: counters_def)
    have r4: "site_ready ?self4 x" if "site_ready self3 x" for x
      using that by (simp add: site_ready_def leaf_at_def)
    have r: "site_ready self' x" if "site_ready self x" for x
      using update_leaf_ready [OF a4 u5 r4 [OF update_leaf_ready [OF a2 u3 update_leaf_ready [OF l0 u2 rd [OF that]]]]] .
    show ?thesis
      apply (rule exI [of _ self'], rule exI [of _ "length (calls self3)"])
      using True inc a5 other r fr2 fr3 fr5 by (simp add: counters_def defaults_frame)
  qed
qed

section \<open>One iteration of the worker loop\<close>

text \<open>
  The handlers do not touch the statistics; an upload returns a result whenever the
  request has a \<^verbatim>\<open>local_path\<close>.
\<close>

lemma counters_state: "state a = state b \<Longrightarrow> counters a = counters b"
  by (simp add: counters_def leaf_at_def fun_eq_iff)

lemma site_ready_state: "state a = state b \<Longrightarrow> site_ready a = site_ready b"
  by (simp add: site_ready_def leaf_at_def fun_eq_iff)

lemma handle_download_frame:
  assumes "handle_download w self s key ftt = (res, ftt1, self1)"
  shows "state self1 = state self \<and> transfer_queue self1 = transfer_queue self \<and>
         callback_queues self1 = callback_queues self \<and> running self1 = running self \<and>
         length (calls self) \<le> length (calls self1)"
proof -
  obtain r a where gos: "get_object_storage w self s = (r, a)"
    by (cases "get_object_storage w self s")
  from get_object_storage_frame [OF gos] assms show ?thesis
    by (auto simp: handle_download_def handle_download_try_def gos Let_def
        split: sum.splits option.splits)
qed

lemma delete_uploaded_calls: "length cs \<le> length (delete_uploaded w cs ftt)"
  by (simp add: delete_uploaded_def Let_def split: option.splits)

lemma handle_upload_frame:
  assumes lp: "local_path ftt = Some p"
  shows "\<exists>res self1. handle_upload w self s key ftt = Inr (res, self1) \<and>
           state self1 = state self \<and>
           (transfer_queue self1 = transfer_queue self \<or>
            transfer_queue self1 = transfer_queue self @ [ftt]) \<and>
           callback_queues self1 = callback_queues self \<and> running self1 = running self \<and>
           length (calls self) \<le> length (calls self1)"
proof -
  obtain r a where gos: "get_object_storage w self s = (r, a)"
    by (cases "get_object_storage w self s")
  have d: "length (calls self) \<le> length (delete_uploaded w (calls a @ [c]) ftt)" for c
    using delete_uploaded_calls [of "calls a @ [c]" w ftt] get_object_storage_frame [OF gos] by simp
  obtain r2 b where t: "handle_upload_try w self s key ftt = (r2, b)"
    by (cases "handle_upload_try w self s key ftt")
  have fr: "state b = state self \<and> transfer_queue b = transfer_queue self \<and>
            callback_queues b = callback_queues self \<and> running b = running self \<and>
            length (calls self) \<le> length (calls b)"
    using t get_object_storage_frame [OF gos] d
    by (auto simp: handle_upload_try_def gos lp Let_def split: sum.splits option.splits
        intro: order_trans)
  show ?thesis
    using fr by (cases r2) (auto simp: handle_upload_def t lp)
qed

lemma oper_func_cases:
  "oper_func oper =
     (if oper = ''download''
      then Some (\<lambda>w self s key ftt. Inr (handle_download w self s key ftt))
      else if oper = ''upload''
      then Some (\<lambda>w self s key ftt.
             case handle_upload w self s key ftt of
               Inl e \<Rightarrow> Inl e
             | Inr (res, self1) \<Rightarrow> Inr (res, ftt, self1))
      else None)"
  by (simp add: oper_func_def)

lemma push_result_frame:
  "state (push_result a ftt res) = state a" "transfer_queue (push_result a ftt res) = transfer_queue a"
  "running (push_result a ftt res) = running a" "calls (push_result a ftt res) = calls a"
  by (simp_all add: push_result_def split: option.splits)

lemma run_body_handled:
  assumes t: "rtype ftt = Some t" "t \<noteq> ''QUIT''"
    and oper: "lower t = ''upload'' \<or> lower t = ''download''"
    and s: "site ftt = Some s" and ft: "filetype ftt = Some ft"
    and known: "ft = ''basebackup'' \<or> ft = ''xlog'' \<or> ft = ''timeline''"
    and lp: "local_path ftt = Some p"
    and ready: "site_ready self s"
  shows "\<exists>key res ftt1 self1 self' n.
           form_key_path ftt = Inr key \<and>
           (if lower t = ''download''
            then handle_download w (self\<lparr>calls := calls self @ [Time]\<rparr>) s key ftt = (res, ftt1, self1)
            else handle_upload w (self\<lparr>calls := calls self @ [Time]\<rparr>) s key ftt = Inr (res, self1) \<and>
                 ftt1 = ftt) \<and>
           run_body w self ftt = Inr (Continue, self') \<and>
           length (calls self) \<le> n \<and>
           counters self' s (lower t) ft =
             (if success res
              then (counters self s (lower t) ft)
                     \<lparr>data := data (counters self s (lower t) ft) +
                               (case file_size ftt1 of None \<Rightarrow> 0 | Some k \<Rightarrow> k),
                      count := count (counters self s (lower t) ft) + 1,
                      time_taken := time_taken (counters self s (lower t) ft) +
                                     (time_time w n - time_time w (length (calls self)))\<rparr>
              else (counters self s (lower t) ft)
                     \<lparr>failures := failures (counters self s (lower t) ft) + 1\<rparr>) \<and>
           (\<forall>s' o' f'. (s', o', f') \<noteq> (s, lower t, ft) \<longrightarrow>
              counters self' s' o' f' = counters self s' o' f') \<and>
           (\<forall>x. site_ready self x \<longrightarrow> site_ready self' x) \<and>
           running self' = running self \<and>
           set (transfer_queue self') \<subseteq> insert ftt (set (transfer_queue self))"
proof -
  let ?self0 = "self\<lparr>calls := calls self @ [Time]\<rparr>"
  let ?t0 = "time_time w (length (calls self))"
  let ?oper = "lower t"
  obtain key where key: "form_key_path ftt = Inr key"
    by (simp add: form_key_path_def s ft lp)
  have st0: "state ?self0 = state self" by simp
  have "\<exists>res ftt1 self1.
          (if ?oper = ''download''
           then handle_download w ?self0 s key ftt = (res, ftt1, self1)
           else handle_upload w ?self0 s key ftt = Inr (res, self1) \<and> ftt1 = ftt) \<and>
          (case oper_func ?oper of
             None \<Rightarrow> False
           | Some h \<Rightarrow> h w ?self0 s key ftt = Inr (res, ftt1, self1)) \<and>
          state self1 = state self \<and> running self1 = running self \<and>
          length (calls self) \<le> length (calls self1) \<and>
          set (transfer_queue self1) \<subseteq> insert ftt (set (transfer_queue self))"
  proof (cases "?oper = ''download''")
    case True
    obtain res ftt1 self1 where hd: "handle_download w ?self0 s key ftt = (res, ftt1, self1)"
      by (cases "handle_download w ?self0 s key ftt")
    from handle_download_frame [OF hd] True hd show ?thesis
      by (auto simp: oper_func_cases)
  next
    case False
    with oper have up: "?oper = ''upload''" by simp
    from handle_upload_frame [OF lp, of w ?self0 s key] obtain res self1 where
      hu: "handle_upload w ?self0 s key ftt = Inr (res, self1)"
      and fr: "state self1 = state ?self0"
        "transfer_queue self1 = transfer_queue ?self0 \<or> transfer_queue self1 = transfer_queue ?self0 @ [ftt]"
        "running self1 = running ?self0" "length (calls ?self0) \<le> length (calls self1)"
      by blast
    from fr(2) have "set (transfer_queue self1) \<subseteq> insert ftt (set (transfer_queue self))"
      by auto
    with hu fr(1,3,4) up show ?thesis
      by (auto simp: oper_func_cases)
  qed
  then obtain res ftt1 self1 h where
    call: "if ?oper = ''download''
           then handle_download w ?self0 s key ftt = (res, ftt1, self1)
           else handle_upload w ?self0 s key ftt = Inr (res, self1) \<and> ftt1 = ftt"
    and h: "oper_func ?oper = Some h" "h w ?self0 s key ftt = Inr (res, ftt1, self1)"
    and fr1: "state self1 = state self" "running self1 = running self"
      "length (calls self) \<le> length (calls self1)"
      "set (transfer_queue self1) \<subseteq> insert ftt (set (transfer_queue self))"
    by (auto split: option.splits)
  have ready1: "site_ready self1 s"
    using ready site_ready_state [OF fr1(1)] by simp
  from increment_statistics_ok [OF ready1 oper known, of w ftt1 res ?t0] obtain self2 n where
    inc: "increment_statistics w self1 s ?oper ft ftt1 res ?t0 = Inr self2"
    and n: "length (calls self1) \<le> n"
    and c2: "counters self2 s ?oper ft =
             (if success res
              then (counters self1 s ?oper ft)
                     \<lparr>data := data (counters self1 s ?oper ft) +
                               (case file_size ftt1 of None \<Rightarrow> 0 | Some k \<Rightarrow> k),
                      count := count (counters self1 s ?oper ft) + 1,
                      time_taken := time_taken (counters self1 s ?oper ft) + (time_time w n - ?t0)\<rparr>
              else (counters self1 s ?oper ft)
                     \<lparr>failures := failures (counters self1 s ?oper ft) + 1\<rparr>)"
    and o2: "\<forall>s' o' f'. (s', o', f') \<noteq> (s, ?oper, ft) \<longrightarrow>
               counters self2 s' o' f' = counters self1 s' o' f'"
    and r2: "\<forall>x. site_ready self1 x \<longrightarrow> site_ready self2 x"
    and fr2: "transfer_queue self2 = transfer_queue self1" "running self2 = running self1"
    by blast
  define self' where "self' = (push_result self2 ftt1 res)\<lparr>calls := calls (push_result self2 ftt1 res) @ [Time]\<rparr>"
  have run: "run_body w self ftt = Inr (Continue, self')"
    by (simp add: run_body_def t lp key h s ft inc Let_def self'_def)
  have st': "state self' = state self2" by (simp add: self'_def push_result_frame)
  have fr': "running self' = running self" "transfer_queue self' = transfer_queue self1"
    by (simp_all add: self'_def push_result_frame fr2 fr1)
  have c': "counters self' = counters self2" "counters self1 = counters self"
    using counters_state [OF st'] counters_state [OF fr1(1)] by simp_all
  have r': "site_ready self' = site_ready self2" "site_ready self1 = site_ready self"
    using site_ready_state [OF st'] site_ready_state [OF fr1(1)] by simp_all
  from n fr1(3) have n': "length (calls self) \<le> n" by simp
  show ?thesis
    apply (rule exI [of _ key], rule exI [of _ res], rule exI [of _ ftt1], rule exI [of _ self1],
      rule exI [of _ self'], rule exI [of _ n])
    unfolding c' r' fr'
    using key call run n' fr1(4) c2 o2 r2 unfolding c' r'
    by (intro conjI) (assumption | rule refl)+
qed

lemma lower_upload: "lower ''UPLOAD'' = ''upload''"
  by code_simp

lemma example_key:
  "form_key_path (example_request\<lparr>filetype := Some ft, file_size := fs\<rparr>) =
     Inr (''default/'' @ ft @ ''/'' @
          (if ft = ''basebackup'' then ''xlog'' else ''000000010000000000000001''))"
proof -
  have "dirname ''/data/xlog/000000010000000000000001.gz'' = ''/data/xlog''"
    using dirname_parent [of "''000000010000000000000001.gz''" "''xlog''" "''/data/''" 0] by simp
  moreover have "basename ''/data/xlog'' = ''xlog''"
    using basename_prefixed [of "''xlog''" "''/data/''"] by simp
  moreover have "basename ''/data/xlog/000000010000000000000001.gz'' = ''000000010000000000000001.gz''"
    using basename_prefixed [of "''000000010000000000000001.gz''" "''/data/xlog/''"] by simp
  moreover have "splitext ''000000010000000000000001.gz'' = (''000000010000000000000001'', ''.gz'')"
    using splitext_stem [of "''000000010000000000000001''" "''gz''"] by simp
  ultimately show ?thesis
    by (simp add: form_key_path_def example_request_def)
qed

lemmas run_body_eval =
  run_body_def oper_func_cases handle_upload_def handle_upload_try_def get_object_storage_def
  transfer_s3 new_storage_def dict_get_def delete_uploaded_def increment_statistics_def
  set_state_defaults_for_site_def update_leaf_def push_result_def EMPTY_def Let_def

lemma handle_download_size:
  assumes "handle_download w self s key ftt = (res, ftt1, self1)" and "success res"
  shows "\<exists>k. file_size ftt1 = Some k \<and> 0 \<le> k"
proof -
  obtain r a where gos: "get_object_storage w self s = (r, a)"
    by (cases "get_object_storage w self s")
  from assms show ?thesis
    by (auto simp: handle_download_def handle_download_try_def gos Let_def
        split: sum.splits option.splits)
qed

text \<open>
  Claim C3 says that a success adds a non-negative amount to the bytes and to the
  cumulative time. The loop adds the request's \<^verbatim>\<open>file_size\<close> as it is, and the
  difference of two readings of \<^verbatim>\<open>time.time()\<close>: a successful upload of a request
  with \<^verbatim>\<open>file_size\<close> \<open>-5\<close> lowers \<open>data\<close> from 0 to \<open>-5\<close>, and with a clock that is
  set back \<open>time_taken\<close> goes from 0 to \<open>-4\<close>.
\<close>

theorem statistics_accounting_counterexample:
  "(\<exists>self'. run_body example_world cached_agent (example_request\<lparr>file_size := Some (- 5)\<rparr>)
        = Inr (Continue, self') \<and>
      count (counters self' ''default'' ''upload'' ''xlog'') = 1 \<and>
      data (counters self' ''default'' ''upload'' ''xlog'') = - 5) \<and>
   data (counters cached_agent ''default'' ''upload'' ''xlog'') = 0 \<and>
   (\<exists>self'. run_body backward_world cached_agent example_request = Inr (Continue, self') \<and>
      count (counters self' ''default'' ''upload'' ''xlog'') = 1 \<and>
      time_taken (counters self' ''default'' ''upload'' ''xlog'') = - 4) \<and>
   time_taken (counters cached_agent ''default'' ''upload'' ''xlog'') = 0"
  using example_key [where ft = "''xlog''" and fs = "Some (- 5)"]
    example_key [where ft = "''xlog''" and fs = "Some 16"]
  by (simp add: run_body_eval lower_upload example_request_def cached_agent_def init_def
      backward_world_def example_world_def counters_def leaf_at_def)

text \<open>
  Claim C3, as amended. For a request that is processed (an upload or a download of one
  of the three file types, for a site whose leaves are ready), the loop body goes on
  with an agent in which the leaf (site, operation, file type) has, when the handler's
  result \<open>res\<close> is a success, \<open>count\<close> one higher, \<open>data\<close> higher by the request's
  \<^verbatim>\<open>file_size\<close> after the handler (0 when it has none), \<open>time_taken\<close> higher by the
  difference of two clock readings, the later minus the one taken at the start, and
  \<open>failures\<close> as before; when the result is a failure, only \<open>failures\<close> is one
  higher. The counters of every other leaf are as before. The amount added to the bytes
  is not negative for a download, and for an upload whose \<^verbatim>\<open>file_size\<close> is not
  negative; the amount added to the time is not negative when the clock does not go
  back.
\<close>

theorem statistics_accounting:
  assumes t: "rtype ftt = Some t" "t \<noteq> ''QUIT''"
    and oper: "lower t = ''upload'' \<or> lower t = ''download''"
    and s: "site ftt = Some s" and ft: "filetype ftt = Some ft"
    and known: "ft = ''basebackup'' \<or> ft = ''xlog'' \<or> ft = ''timeline''"
    and lp: "local_path ftt = Some p"
    and ready: "site_ready self s"
  shows "\<exists>key res ftt1 self1 self' n.
           form_key_path ftt = Inr key \<and>
           (if lower t = ''download''
            then handle_download w (self\<lparr>calls := calls self @ [Time]\<rparr>) s key ftt = (res, ftt1, self1)
            else handle_upload w (self\<lparr>calls := calls self @ [Time]\<rparr>) s key ftt = Inr (res, self1) \<and>
                 ftt1 = ftt) \<and>
           run_body w self ftt = Inr (Continue, self') \<and>
           counters self' s (lower t) ft =
             (if success res
              then (counters self s (lower t) ft)
                     \<lparr>data := data (counters self s (lower t) ft) +
                               (case file_size ftt1 of None \<Rightarrow> 0 | Some k \<Rightarrow> k),
                      count := count (counters self s (lower t) ft) + 1,
                      time_taken := time_taken (counters self s (lower t) ft) +
                                     (time_time w n - time_time w (length (calls self)))\<rparr>
              else (counters self s (lower t) ft)
                     \<lparr>failures := failures (counters self s (lower t) ft) + 1\<rparr>) \<and>
           (\<forall>s' o' f'. (s', o', f') \<noteq> (s, lower t, ft) \<longrightarrow>
              counters self' s' o' f' = counters self s' o' f') \<and>
           (success res \<and> (lower t = ''download'' \<or> (\<forall>k. file_size ftt = Some k \<longrightarrow> 0 \<le> k)) \<longrightarrow>
              0 \<le> (case file_size ftt1 of None \<Rightarrow> 0 | Some k \<Rightarrow> k)) \<and>
           (mono (time_time w) \<longrightarrow> 0 \<le> time_time w n - time_time w (length (calls self)))"
proof -
  from run_body_handled [OF assms, of w] obtain key res ftt1 self1 self' n where
    *: "form_key_path ftt = Inr key"
       "if lower t = ''download''
        then handle_download w (self\<lparr>calls := calls self @ [Time]\<rparr>) s key ftt = (res, ftt1, self1)
        else handle_upload w (self\<lparr>calls := calls self @ [Time]\<rparr>) s key ftt = Inr (res, self1) \<and>
             ftt1 = ftt"
       "run_body w self ftt = Inr (Continue, self')"
       "length (calls self) \<le> n"
       "counters self' s (lower t) ft =
             (if success res
              then (counters self s (lower t) ft)
                     \<lparr>data := data (counters self s (lower t) ft) +
                               (case file_size ftt1 of None \<Rightarrow> 0 | Some k \<Rightarrow> k),
                      count := count (counters self s (lower t) ft) + 1,
                      time_taken := time_taken (counters self s (lower t) ft) +
                                     (time_time w n - time_time w (length (calls self)))\<rparr>
              else (counters self s (lower t) ft)
                     \<lparr>failures := failures (counters self s (lower t) ft) + 1\<rparr>)"
       "\<forall>s' o' f'. (s', o', f') \<noteq> (s, lower t, ft) \<longrightarrow>
              counters self' s' o' f' = counters self s' o' f'"
    by blast
  have time: "mono (time_time w) \<longrightarrow> 0 \<le> time_time w n - time_time w (length (calls self))"
    using *(4) by (auto dest: monoD)
  have size: "0 \<le> (case file_size ftt1 of None \<Rightarrow> 0 | Some k \<Rightarrow> k)"
    if "success res" "lower t = ''download'' \<or> (\<forall>k. file_size ftt = Some k \<longrightarrow> 0 \<le> k)"
  proof (cases "lower t = ''download''")
    case True
    with *(2) have "handle_download w (self\<lparr>calls := calls self @ [Time]\<rparr>) s key ftt = (res, ftt1, self1)"
      by simp
    from handle_download_size [OF this that(1)] show ?thesis by auto
  next
    case False
    with *(2) that(2) show ?thesis by (auto split: option.splits)
  qed
  from * time size show ?thesis by blast
qed

theorem statistics_accounting_witness:
  "\<exists>self'. run_body example_world cached_agent example_request = Inr (Continue, self') \<and>
     counters self' ''default'' ''upload'' ''xlog''
       = \<lparr>data = 16, count = 1, time_taken = 4, failures = 0\<rparr> \<and>
     counters self' ''default'' ''download'' ''xlog'' = EMPTY \<and>
     counters self' ''default'' ''upload'' ''timeline'' = EMPTY \<and>
     counters cached_agent ''default'' ''upload'' ''xlog'' = EMPTY \<and>
     site_ready cached_agent ''default'' \<and> mono (time_time example_world) \<and>
     file_size example_request = Some 16"
  using statistics_accounting [of example_request "''UPLOAD''" "''default''" "''xlog''"
      "''/data/xlog/000000010000000000000001.gz''" cached_agent example_world]
    example_key [where ft = "''xlog''" and fs = "Some 16"]
  by (simp add: run_body_eval lower_upload example_request_def cached_agent_def init_def
      example_world_def counters_def leaf_at_def site_ready_def mono_def)

section \<open>The loop never raises on well-formed requests\<close>

text \<open>
  The body processes a well-formed request without raising, keeps the leaves ready,
  puts back at most the request itself, and breaks exactly for \<^verbatim>\<open>QUIT\<close>.
\<close>

lemma run_body_safe:
  assumes wf: "well_formed ftt" and ready: "\<forall>x. site_ready self x"
  shows "\<exists>fl self'. run_body w self ftt = Inr (fl, self') \<and>
           (\<forall>x. site_ready self' x) \<and> running self' = running self \<and>
           set (transfer_queue self') \<subseteq> insert ftt (set (transfer_queue self)) \<and>
           (fl = Break) = (rtype ftt = Some ''QUIT'')"
proof -
  from wf obtain t where t: "rtype ftt = Some t"
    by (auto simp: well_formed_def split: option.splits)
  show ?thesis
  proof (cases "t = ''QUIT''")
    case True
    with t ready show ?thesis by (auto simp: run_body_def)
  next
    case False
    with wf t obtain p s ft where f: "local_path ftt = Some p" "site ftt = Some s" "filetype ftt = Some ft"
      and known: "lower t = ''upload'' \<or> lower t = ''download'' \<Longrightarrow>
                  ft = ''basebackup'' \<or> ft = ''xlog'' \<or> ft = ''timeline''"
      by (auto simp: well_formed_def split: option.splits)
    obtain key where key: "form_key_path ftt = Inr key"
      by (simp add: form_key_path_def f)
    show ?thesis
    proof (cases "lower t = ''upload'' \<or> lower t = ''download''")
      case oper: True
      from ready have "site_ready self s" by simp
      from run_body_handled [OF t False oper f(2) f(3) known [OF oper] f(1) this, of w] ready t False
      show ?thesis by auto
    next
      case oper: False
      have "site_ready (self\<lparr>calls := calls self @ [Time]\<rparr>) = site_ready self"
        by (rule site_ready_state) simp
      with oper ready t False show ?thesis
        by (auto simp: run_body_def f key oper_func_cases)
    qed
  qed
qed

text \<open>
  Claim C1, as amended. When every request on the transfer queue is well formed (and
  the statistics are as \<open>init\<close> and the loop leave them), \<open>run\<close> never raises,
  however many iterations it makes and whatever the backends do: the handlers turn
  every exception into a result, and an unknown operation is dropped. When \<open>run\<close>
  returns, \<open>running\<close> was false or a \<^verbatim>\<open>QUIT\<close> request was on the queue.
\<close>

theorem run_never_raises:
  assumes wf: "\<forall>ftt \<in> set (transfer_queue self). well_formed ftt"
    and ready: "\<forall>x. site_ready self x"
  shows "run n w self \<noteq> Raised e \<and>
         (\<forall>self'. run n w self = Returned self' \<longrightarrow>
            \<not> running self \<or> (\<exists>ftt \<in> set (transfer_queue self). rtype ftt = Some ''QUIT''))"
  using wf ready
proof (induction n arbitrary: self)
  case 0
  then show ?case by simp
next
  case (Suc n)
  show ?case
  proof (cases "running self")
    case False
    then show ?thesis by simp
  next
    case run: True
    show ?thesis
    proof (cases "transfer_queue self")
      case Nil
      with run Suc.IH [OF Suc.prems] show ?thesis by simp
    next
      case (Cons ftt rest)
      let ?self = "self\<lparr>transfer_queue := rest\<rparr>"
      from Cons Suc.prems(1) have wf1: "well_formed ftt" and wfr: "\<forall>x \<in> set rest. well_formed x"
        by auto
      have "site_ready ?self = site_ready self" by (rule site_ready_state) simp
      with Suc.prems(2) have ready1: "\<forall>x. site_ready ?self x" by simp
      from run_body_safe [OF wf1 ready1, of w] obtain fl self1 where
        body: "run_body w ?self ftt = Inr (fl, self1)"
        and r1: "\<forall>x. site_ready self1 x" and run1: "running self1 = running self"
        and q1: "set (transfer_queue self1) \<subseteq> insert ftt (set rest)"
        and fl: "(fl = Break) = (rtype ftt = Some ''QUIT'')"
        by auto
      show ?thesis
      proof (cases fl)
        case Break
        with run Cons body fl show ?thesis by simp
      next
        case Continue
        from q1 wf1 wfr have "\<forall>x \<in> set (transfer_queue self1). well_formed x" by auto
        from Suc.IH [OF this r1] run run1 q1 Cons
        have "run n w self1 \<noteq> Raised e \<and>
              (\<forall>self'. run n w self1 = Returned self' \<longrightarrow>
                 (\<exists>x \<in> set (transfer_queue self). rtype x = Some ''QUIT''))"
          by auto
        with run Cons body Continue show ?thesis by simp
      qed
    qed
  qed
qed

text \<open>
  Claim C1 as stated includes requests with an unknown file type or with missing
  fields. An upload with the file type \<^verbatim>\<open>wal\<close> is stored by the backend, and the
  statistics update then raises \<open>KeyError\<close>, which nothing in \<open>run\<close> catches; a
  request without \<^verbatim>\<open>local_path\<close> or without \<^verbatim>\<open>type\<close> raises before any
  handler is called.
\<close>

theorem run_raises_counterexample:
  "run 1 example_world (init example_config [] [example_request\<lparr>filetype := Some ''wal''\<rparr>])
     = Raised (KeyError ''wal'') \<and>
   run 1 example_world (init example_config [] [example_request\<lparr>local_path := None\<rparr>])
     = Raised (KeyError ''local_path'') \<and>
   run 1 example_world (init example_config [] [example_request\<lparr>rtype := None\<rparr>])
     = Raised (KeyError ''type'')"
  using example_key [where ft = "''wal''" and fs = "Some 16"]
  by (simp add: run_body_eval lower_upload example_request_def init_def example_config_def
      s3_config_def example_world_def)

theorem run_never_raises_witness:
  "run 3 example_world (init example_config [] [example_request, quit_request])
     \<noteq> Raised (KeyError ''xlog'') \<and>
   (\<exists>self'. run 3 example_world (init example_config [] [example_request, quit_request])
      = Returned self') \<and>
   well_formed example_request \<and> well_formed quit_request \<and>
   rtype quit_request = Some ''QUIT''"
  using run_never_raises [of "init example_config [] [example_request, quit_request]" 3
      example_world "KeyError ''xlog''"] example_key [where ft = "''xlog''" and fs = "Some 16"]
  by (simp add: eval_nat_numeral run_body_eval lower_upload example_request_def quit_request_def
      init_def example_config_def s3_config_def example_world_def well_formed_def site_ready_def)

end
